theory Spec2Isabelle
  imports Complex_Main "HOL-Library.Char_ord" "HOL-Library.List_Lexorder"
begin

section \<open>JavaScript built-ins used by the sources\<close>

text \<open>
  The tracker is TypeScript. Its \<open>number\<close> values that count things (a log's \<open>count\<close>, a
  skill's \<open>weeklyGoal\<close>, calendar fields) are integers and are modelled as \<open>int\<close>; the
  percentages derived from them by division are modelled as exact rationals (\<open>rat\<close>), so
  the rounding of IEEE doubles is not part of this model. Strings are \<open>char list\<close>;
  comparison of strings with \<open><=\<close> is the lexicographic order on character codes, which
  is the order of \<open>HOL-Library.List_Lexorder\<close> over \<open>HOL-Library.Char_ord\<close>.
\<close>

subsection \<open>Strings and numbers\<close>

definition digitChar :: "int \<Rightarrow> char" where
  "digitChar n = char_of (48 + n)"

definition isDigit :: "char \<Rightarrow> bool" where
  "isDigit c = (48 \<le> (of_char c :: int) \<and> (of_char c :: int) \<le> 57)"

definition digitVal :: "char \<Rightarrow> int" where
  "digitVal c = of_char c - 48"

text \<open>
  \<open>String(n)\<close> for an integer \<open>n\<close>: its decimal digits, most significant first, with a
  minus sign when negative.
\<close>

function decimalDigits :: "int \<Rightarrow> string" where
  "decimalDigits n =
     (if n < 10 then [digitChar n] else decimalDigits (n div 10) @ [digitChar (n mod 10)])"
  by pat_completeness auto
termination
  by (relation "measure nat") auto

declare decimalDigits.simps [simp del]

definition String :: "int \<Rightarrow> string" where
  "String i = (if i < 0 then CHR ''-'' # decimalDigits (- i) else decimalDigits i)"

text \<open>\<open>s.padStart(n, c)\<close> with a one-character filler.\<close>

definition padStart :: "nat \<Rightarrow> char \<Rightarrow> string \<Rightarrow> string" where
  "padStart n c s = (if n \<le> length s then s else replicate (n - length s) c @ s)"

text \<open>\<open>s.split(c)\<close> with a one-character separator; the empty string splits into \<open>['']\<close>.\<close>

fun split :: "char \<Rightarrow> string \<Rightarrow> string list" where
  "split c [] = [[]]"
| "split c (x # xs) =
     (if x = c then [] # split c xs
      else (case split c xs of [] \<Rightarrow> [[x]] | w # ws \<Rightarrow> (x # w) # ws))"

text \<open>
  The value of a string of decimal digits, most significant digit first
  (the accumulator is the value read so far).
\<close>

fun digitsValue :: "int \<Rightarrow> string \<Rightarrow> int" where
  "digitsValue acc [] = acc"
| "digitsValue acc (c # cs) = digitsValue (10 * acc + digitVal c) cs"

text \<open>
  \<open>Number(s)\<close>, modelled on the strings the tracker produces and reads back: the empty
  string is 0, a non-empty run of decimal digits (leading zeros allowed) with an optional
  sign is its decimal value. \<open>None\<close> stands for \<open>NaN\<close>; the other numeric forms of
  JavaScript (fractions, exponents, hexadecimal, surrounding white space, \<open>Infinity\<close>) are
  outside this model and also map to \<open>None\<close>.
\<close>

definition Number :: "string \<Rightarrow> int option" where
  "Number s =
     (case s of
        [] \<Rightarrow> Some 0
      | c # cs \<Rightarrow>
          if list_all isDigit s then Some (digitsValue 0 s)
          else if c = CHR ''-'' \<and> cs \<noteq> [] \<and> list_all isDigit cs then Some (- digitsValue 0 cs)
          else if c = CHR ''+'' \<and> cs \<noteq> [] \<and> list_all isDigit cs then Some (digitsValue 0 cs)
          else None)"

text \<open>
  \<open>parseInt(s, 10)\<close>: leading white space (here the ASCII white space) is skipped, an
  optional sign is read, then the longest run of decimal digits; without a digit the
  result is \<open>NaN\<close> (\<open>None\<close>).
\<close>

definition isSpace :: "char \<Rightarrow> bool" where
  "isSpace c = (c \<in> set [CHR '' '', CHR 0x09, CHR 0x0A, CHR 0x0B, CHR 0x0C, CHR 0x0D])"

definition parseInt :: "string \<Rightarrow> int option" where
  "parseInt s =
     (let t = dropWhile isSpace s;
          neg = (t \<noteq> [] \<and> hd t = CHR ''-'');
          u = (if t \<noteq> [] \<and> (hd t = CHR ''-'' \<or> hd t = CHR ''+'') then tl t else t);
          ds = takeWhile isDigit u
      in if ds = [] then None
         else Some (if neg then - digitsValue 0 ds else digitsValue 0 ds))"

subsection \<open>Dates\<close>

text \<open>
  The sources touch a \<open>Date\<close> only through its local calendar fields
  (\<open>getFullYear\<close>, \<open>getMonth\<close>, \<open>getDate\<close>, \<open>getDay\<close>, \<open>setDate\<close>, \<open>setHours\<close>, the
  three-argument constructor), never through its time value. A \<open>Date\<close> is therefore
  modelled by its local fields, the calendar date and time of day that the getters read.
  \<open>getMonth\<close> counts from 0 (January) to 11. A JavaScript \<open>Date\<close> lies within
  100 000 000 days of 1 January 1970, in the years -271821 to 275760; the record has no
  such bound, and the theorems that step from one date to another name the years they
  are about.
\<close>

record Date =
  getFullYear :: int
  getMonth :: int
  getDate :: int
  getHours :: int
  getMinutes :: int
  getSeconds :: int
  getMilliseconds :: int

definition isLeapYear :: "int \<Rightarrow> bool" where
  "isLeapYear y = (y mod 4 = 0 \<and> (y mod 100 \<noteq> 0 \<or> y mod 400 = 0))"

definition daysInMonth :: "int \<Rightarrow> int \<Rightarrow> int" where
  "daysInMonth y m =
     (if m = 1 then (if isLeapYear y then 29 else 28)
      else if m = 3 \<or> m = 5 \<or> m = 8 \<or> m = 10 then 30 else 31)"

definition validDate :: "Date \<Rightarrow> bool" where
  "validDate d =
     (0 \<le> getMonth d \<and> getMonth d \<le> 11 \<and>
      1 \<le> getDate d \<and> getDate d \<le> daysInMonth (getFullYear d) (getMonth d) \<and>
      0 \<le> getHours d \<and> getHours d \<le> 23 \<and> 0 \<le> getMinutes d \<and> getMinutes d \<le> 59 \<and>
      0 \<le> getSeconds d \<and> getSeconds d \<le> 59 \<and>
      0 \<le> getMilliseconds d \<and> getMilliseconds d \<le> 999)"

definition nextMonth :: "int \<Rightarrow> int \<Rightarrow> int \<times> int" where
  "nextMonth y m = (if m = 11 then (y + 1, 0) else (y, m + 1))"

definition prevMonth :: "int \<Rightarrow> int \<Rightarrow> int \<times> int" where
  "prevMonth y m = (if m = 0 then (y - 1, 11) else (y, m - 1))"

text \<open>
  A day-of-month outside its month rolls over into the neighbouring months, as the
  constructor and \<open>setDate\<close> do: day 0 is the last day of the month before, day 32 of
  January is 1 February.
\<close>

function rollDay :: "int \<Rightarrow> int \<Rightarrow> int \<Rightarrow> int \<times> int \<times> int" where
  "rollDay y m n =
     (if n < 1 then
        (case prevMonth y m of (y', m') \<Rightarrow> rollDay y' m' (n + daysInMonth y' m'))
      else if daysInMonth y m < n then
        (case nextMonth y m of (y', m') \<Rightarrow> rollDay y' m' (n - daysInMonth y m))
      else (y, m, n))"
  by pat_completeness auto
termination
  by (relation "measure (\<lambda>(y, m, n). if n < 1 then nat (40 - n) else nat (n - 1))")
     (auto simp: daysInMonth_def split: if_splits)

declare rollDay.simps [simp del]

text \<open>
  The constructor and the setters compute the local fields they are asked for by calendar
  arithmetic, and the runtime then resolves these fields to an instant in the time zone of
  the host and reads the local fields of that instant back. The host's zone is this
  resolution, a parameter of every operation that builds or changes a date. It leaves a
  local time that the zone has as it is (a local time that occurs twice, at the end of
  daylight saving, reads back as itself); a local time that the zone skips is moved
  forward by the width of the gap, so 02:30 in a gap from 02:00 to 03:00 becomes 03:30,
  and a time on a calendar day that the zone skips becomes the same time a day later.
\<close>

type_synonym zone = "Date \<Rightarrow> Date"

text \<open>
  The fields that \<open>new Date(year, monthIndex, day)\<close> asks for: local midnight; years 0
  to 99 mean 1900 to 1999.
\<close>

definition makeDate :: "int \<Rightarrow> int \<Rightarrow> int \<Rightarrow> Date" where
  "makeDate year monthIndex day =
     (let yi = (if 0 \<le> year \<and> year \<le> 99 then 1900 + year else year)
      in case rollDay (yi + monthIndex div 12) (monthIndex mod 12) day of
           (y, m, n) \<Rightarrow>
             \<lparr>getFullYear = y, getMonth = m, getDate = n,
              getHours = 0, getMinutes = 0, getSeconds = 0, getMilliseconds = 0\<rparr>)"

definition newDate :: "zone \<Rightarrow> int \<Rightarrow> int \<Rightarrow> int \<Rightarrow> Date" where
  "newDate tz year monthIndex day = tz (makeDate year monthIndex day)"

text \<open>
  The fields that \<open>d.setDate(n)\<close> asks for: day \<open>n\<close> of the month of \<open>d\<close>, rolled
  over, at the time of day of \<open>d\<close>.
\<close>

definition withDate :: "Date \<Rightarrow> int \<Rightarrow> Date" where
  "withDate d n =
     (case rollDay (getFullYear d) (getMonth d) n of
        (y, m, k) \<Rightarrow> d\<lparr>getFullYear := y, getMonth := m, getDate := k\<rparr>)"

definition setDate :: "zone \<Rightarrow> Date \<Rightarrow> int \<Rightarrow> Date" where
  "setDate tz d n = tz (withDate d n)"

text \<open>
  The fields that \<open>d.setHours(h, m, s, ms)\<close> asks for, for arguments within a day, the
  only ones the sources pass.
\<close>

definition withHours :: "Date \<Rightarrow> int \<Rightarrow> int \<Rightarrow> int \<Rightarrow> int \<Rightarrow> Date" where
  "withHours d h mi s ms =
     d\<lparr>getHours := h, getMinutes := mi, getSeconds := s, getMilliseconds := ms\<rparr>"

definition setHours :: "zone \<Rightarrow> Date \<Rightarrow> int \<Rightarrow> int \<Rightarrow> int \<Rightarrow> int \<Rightarrow> Date" where
  "setHours tz d h mi s ms = tz (withHours d h mi s ms)"

text \<open>
  The weekday, 0 for Sunday to 6 for Saturday, from the number of days since 1 January
  1970 (a Thursday), computed as the ECMAScript specification does.
\<close>

definition dayFromYear :: "int \<Rightarrow> int" where
  "dayFromYear y =
     365 * (y - 1970) + (y - 1969) div 4 - (y - 1901) div 100 + (y - 1601) div 400"

definition daysBeforeMonth :: "int \<Rightarrow> int \<Rightarrow> int" where
  "daysBeforeMonth y m = sum_list (map (daysInMonth y) [0..m - 1])"

definition dayNumber :: "Date \<Rightarrow> int" where
  "dayNumber d =
     dayFromYear (getFullYear d) + daysBeforeMonth (getFullYear d) (getMonth d) + getDate d - 1"

definition getDay :: "Date \<Rightarrow> int" where
  "getDay d = (dayNumber d + 4) mod 7"

text \<open>The en-US short names that \<open>toLocaleDateString\<close> prints.\<close>

definition shortWeekday :: "Date \<Rightarrow> string" where
  "shortWeekday d =
     [''Sun'', ''Mon'', ''Tue'', ''Wed'', ''Thu'', ''Fri'', ''Sat''] ! nat (getDay d)"

definition shortMonth :: "Date \<Rightarrow> string" where
  "shortMonth d =
     [''Jan'', ''Feb'', ''Mar'', ''Apr'', ''May'', ''Jun'',
      ''Jul'', ''Aug'', ''Sep'', ''Oct'', ''Nov'', ''Dec''] ! nat (getMonth d)"

section \<open>dateUtils.ts\<close>

definition formatDateToString :: "Date \<Rightarrow> string" where
  "formatDateToString date =
     (let year = getFullYear date;
          month = padStart 2 CHR ''0'' (String (getMonth date + 1));
          day = padStart 2 CHR ''0'' (String (getDate date))
      in String year @ ''-'' @ month @ ''-'' @ day)"

text \<open>
  \<open>parseDate\<close> destructures the first three pieces of the split string; a missing piece
  is \<open>undefined\<close> and a piece that is no number is \<open>NaN\<close>, and either makes the
  constructor return an invalid date, which is \<open>None\<close> here.
\<close>

definition parseDate :: "zone \<Rightarrow> string \<Rightarrow> Date option" where
  "parseDate tz dateString =
     (case map Number (split CHR ''-'' dateString) of
        Some year # Some month # Some day # _ \<Rightarrow> Some (newDate tz year (month - 1) day)
      | _ \<Rightarrow> None)"

definition getWeekStart :: "zone \<Rightarrow> Date \<Rightarrow> Date" where
  "getWeekStart tz date =
     (let result = date;
          dayOfWeek = getDay result;
          daysToSubtract = (if dayOfWeek = 0 then 6 else dayOfWeek - 1);
          result = setDate tz result (getDate result - daysToSubtract);
          result = setHours tz result 0 0 0 0
      in result)"

definition getWeekEnd :: "zone \<Rightarrow> Date \<Rightarrow> Date" where
  "getWeekEnd tz date =
     (let weekStart = getWeekStart tz date;
          result = weekStart;
          result = setDate tz result (getDate result + 6);
          result = setHours tz result 23 59 59 999
      in result)"

text \<open>\<open>getCurrentWeekRange\<close> reads the clock; the current date is a parameter here.\<close>

definition getCurrentWeekRange :: "zone \<Rightarrow> Date \<Rightarrow> Date \<times> Date" where
  "getCurrentWeekRange tz today = (getWeekStart tz today, getWeekEnd tz today)"

definition formatDateForDisplay :: "Date \<Rightarrow> string" where
  "formatDateForDisplay date = shortMonth date @ '' '' @ String (getDate date)"

text \<open>The separator is an en dash (U+2013), written here as its three UTF-8 bytes.\<close>

definition formatWeekRange :: "Date \<Rightarrow> Date \<Rightarrow> string" where
  "formatWeekRange start end' =
     formatDateForDisplay start @ [CHR '' '', CHR 0xE2, CHR 0x80, CHR 0x93, CHR '' '']
       @ formatDateForDisplay end'"

text \<open>The loop of \<open>getWeekDates\<close>: \<open>for (let i = 0; i < 7; i++)\<close>.\<close>

function getWeekDates_loop :: "zone \<Rightarrow> nat \<Rightarrow> Date \<Rightarrow> string list \<Rightarrow> string list" where
  "getWeekDates_loop tz i current dates =
     (if i < 7 then
        getWeekDates_loop tz (i + 1) (setDate tz current (getDate current + 1))
          (dates @ [formatDateToString current])
      else dates)"
  by pat_completeness auto
termination
  by (relation "measure (\<lambda>(tz, i, current, dates). 7 - i)") auto

declare getWeekDates_loop.simps [simp del]

definition getWeekDates :: "zone \<Rightarrow> Date \<Rightarrow> string list" where
  "getWeekDates tz weekStart = getWeekDates_loop tz 0 weekStart []"

section \<open>storage.ts\<close>

record Skill =
  skill_id :: string
  skill_name :: string
  weeklyGoal :: int
  createdAt :: int

record Log =
  log_id :: string
  skillId :: string
  date :: string
  count :: int

text \<open>
  \<open>localStorage\<close> holds one item per key; an item that is missing or does not parse is
  \<open>None\<close>, and \<open>getFromStorage\<close> then answers the default value.
\<close>

record Storage =
  skillsItem :: "Skill list option"
  logsItem :: "Log list option"

definition getFromStorage :: "'a option \<Rightarrow> 'a \<Rightarrow> 'a" where
  "getFromStorage stored defaultValue =
     (case stored of None \<Rightarrow> defaultValue | Some v \<Rightarrow> v)"

definition getSkills :: "Storage \<Rightarrow> Skill list" where
  "getSkills st = getFromStorage (skillsItem st) []"

definition saveSkills :: "Skill list \<Rightarrow> Storage \<Rightarrow> Storage" where
  "saveSkills skills st = st\<lparr>skillsItem := Some skills\<rparr>"

definition getLogs :: "Storage \<Rightarrow> Log list" where
  "getLogs st = getFromStorage (logsItem st) []"

definition saveLogs :: "Log list \<Rightarrow> Storage \<Rightarrow> Storage" where
  "saveLogs logs st = st\<lparr>logsItem := Some logs\<rparr>"

definition logExistsForDate :: "Storage \<Rightarrow> string \<Rightarrow> string \<Rightarrow> bool" where
  "logExistsForDate st sid d =
     (let logs = getLogs st in list_ex (\<lambda>log. skillId log = sid \<and> date log = d) logs)"

definition getLogsForSkill :: "Storage \<Rightarrow> string \<Rightarrow> Log list" where
  "getLogsForSkill st sid = (let logs = getLogs st in filter (\<lambda>log. skillId log = sid) logs)"

definition getLogsInDateRange :: "Storage \<Rightarrow> string \<Rightarrow> string \<Rightarrow> Log list" where
  "getLogsInDateRange st startDate endDate =
     (let logs = getLogs st
      in filter (\<lambda>log. date log \<ge> startDate \<and> date log \<le> endDate) logs)"

section \<open>reportUtils.ts\<close>

record DailyExecution =
  de_date :: string
  dayName :: string
  de_count :: int

record SkillProgress =
  sp_skillId :: string
  skillName :: string
  sp_weeklyGoal :: int
  completedCount :: int
  progressPercentage :: rat
  isComplete :: bool
  dailyBreakdown :: "DailyExecution list"

record WeeklyReport =
  weekRange :: string
  startDate :: string
  endDate :: string
  skills :: "SkillProgress list"
  overallProgress :: rat
  totalGoal :: int
  totalCompleted :: int

definition calculateSkillProgress ::
  "zone \<Rightarrow> Skill \<Rightarrow> Log list \<Rightarrow> string list \<Rightarrow> SkillProgress" where
  "calculateSkillProgress tz skill weekLogs weekDates =
     (let skillLogs = filter (\<lambda>log. skillId log = skill_id skill) weekLogs;
          completedCount = foldl (\<lambda>sum log. sum + count log) 0 skillLogs;
          rawPercentage =
            (if weeklyGoal skill > 0
             then (rat_of_int completedCount / rat_of_int (weeklyGoal skill)) * 100
             else 0);
          progressPercentage = min rawPercentage 100;
          dailyBreakdown =
            map (\<lambda>date'.
                   let dayLog = find (\<lambda>log. date log = date') skillLogs;
                       dateObj = parseDate tz date'
                   in \<lparr>de_date = date',
                       dayName = (case dateObj of None \<Rightarrow> ''Invalid Date''
                                  | Some d \<Rightarrow> shortWeekday d),
                       de_count = (case dayLog of None \<Rightarrow> 0
                                   | Some l \<Rightarrow> if count l = 0 then 0 else count l)\<rparr>)
              weekDates
      in \<lparr>sp_skillId = skill_id skill,
          skillName = skill_name skill,
          sp_weeklyGoal = weeklyGoal skill,
          completedCount = completedCount,
          progressPercentage = progressPercentage,
          isComplete = (completedCount \<ge> weeklyGoal skill),
          dailyBreakdown = dailyBreakdown\<rparr>)"

text \<open>\<open>generateWeeklyReport\<close> reads the clock and the storage; both are parameters here.\<close>

definition generateWeeklyReport :: "zone \<Rightarrow> Date \<Rightarrow> Storage \<Rightarrow> WeeklyReport" where
  "generateWeeklyReport tz today st =
     (case getCurrentWeekRange tz today of
        (start, end') \<Rightarrow>
          let startStr = formatDateToString start;
              endStr = formatDateToString end';
              skills = getSkills st;
              weekLogs = getLogsInDateRange st startStr endStr;
              weekDates = getWeekDates tz start;
              skillsProgress =
                map (\<lambda>skill. calculateSkillProgress tz skill weekLogs weekDates) skills;
              totalGoal = foldl (\<lambda>sum skill. sum + weeklyGoal skill) 0 skills;
              totalCompleted = foldl (\<lambda>sum sp. sum + completedCount sp) 0 skillsProgress;
              overallProgress =
                (if totalGoal > 0
                 then min ((rat_of_int totalCompleted / rat_of_int totalGoal) * 100) 100
                 else 0)
          in \<lparr>weekRange = formatWeekRange start end',
              startDate = startStr,
              endDate = endStr,
              skills = skillsProgress,
              overallProgress = overallProgress,
              totalGoal = totalGoal,
              totalCompleted = totalCompleted\<rparr>)"

datatype ProgressStatus = complete | on_track | behind

text \<open>\<open>getProgressStatus\<close> reads the clock for the weekday; today's date is a parameter.\<close>

definition getProgressStatus :: "Date \<Rightarrow> SkillProgress \<Rightarrow> ProgressStatus" where
  "getProgressStatus today progress =
     (if isComplete progress then complete
      else
        let dayOfWeek = getDay today;
            daysElapsed = (if dayOfWeek = 0 then 7 else dayOfWeek);
            expectedProgress = (rat_of_int daysElapsed / 7) * rat_of_int (sp_weeklyGoal progress)
        in if rat_of_int (completedCount progress) \<ge> expectedProgress then on_track else behind)"

section \<open>useLogs.ts and the useSkills hook\<close>

text \<open>\<open>findIndex\<close> answers -1 when no element satisfies the predicate.\<close>

fun findIndex :: "('a \<Rightarrow> bool) \<Rightarrow> 'a list \<Rightarrow> int" where
  "findIndex P [] = - 1"
| "findIndex P (x # xs) =
     (if P x then 0 else (let i = findIndex P xs in if i = - 1 then - 1 else i + 1))"

text \<open>The state updater that \<open>addOrUpdateLog\<close> hands to \<open>setLogs\<close>.\<close>

definition addOrUpdateLog :: "Log \<Rightarrow> Log list \<Rightarrow> Log list" where
  "addOrUpdateLog log' prev =
     (let existingIndex = findIndex (\<lambda>l. log_id l = log_id log') prev
      in if existingIndex \<noteq> - 1 then
           (let updated = prev; updated = updated[nat existingIndex := log'] in updated)
         else prev @ [log'])"

definition deleteLog :: "string \<Rightarrow> Log list \<Rightarrow> Log list" where
  "deleteLog logId prev = filter (\<lambda>log. log_id log \<noteq> logId) prev"

text \<open>
  The page holds the state of both hooks next to the storage. Each hook has an effect
  that writes its state to the storage after a render in which the state changed.
\<close>

datatype FeedbackType = success | error

record Feedback =
  fb_type :: FeedbackType
  message :: string

record LoggerState =
  selectedDate :: string
  selectedSkillId :: string
  executionCount :: string
  feedback :: "Feedback option"

record App =
  skillsState :: "Skill list"
  logsState :: "Log list"
  localStorage :: Storage
  logger :: LoggerState

definition useSkills_effect :: "App \<Rightarrow> App" where
  "useSkills_effect app = app\<lparr>localStorage := saveSkills (skillsState app) (localStorage app)\<rparr>"

definition useLogs_effect :: "App \<Rightarrow> App" where
  "useLogs_effect app = app\<lparr>localStorage := saveLogs (logsState app) (localStorage app)\<rparr>"

text \<open>
  \<open>deleteSkill\<close> replaces the hook's skills by the filtered ones and writes the filtered
  logs straight to the storage.
\<close>

definition deleteSkill :: "string \<Rightarrow> App \<Rightarrow> App" where
  "deleteSkill sid app =
     (let app = app\<lparr>skillsState := filter (\<lambda>skill. skill_id skill \<noteq> sid) (skillsState app)\<rparr>;
          logs = getLogs (localStorage app);
          filteredLogs = filter (\<lambda>log. skillId log \<noteq> sid) logs
      in app\<lparr>localStorage := saveLogs filteredLogs (localStorage app)\<rparr>)"

section \<open>ExecutionLogger.tsx\<close>

text \<open>
  A handler of the component is a function from the component's state, the storage it
  reads and the identifier that \<open>generateId\<close> would hand out (and the zone of the host,
  where the handler builds a date), to the new state of the
  component and the log passed to \<open>onLogExecution\<close>, if the handler calls it. The
  multiplication sign of the messages (U+00D7) is written as its two UTF-8 bytes; the
  timer that clears the feedback three seconds later is not modelled.
\<close>

definition times_sign :: string where
  "times_sign = [CHR 0xC3, CHR 0x97]"

definition getTodayString :: "Date \<Rightarrow> string" where
  "getTodayString now = formatDateToString now"

definition handleLogExecution ::
  "zone \<Rightarrow> Skill list \<Rightarrow> Storage \<Rightarrow> string \<Rightarrow> LoggerState
     \<Rightarrow> LoggerState \<times> Log option" where
  "handleLogExecution tz skills' st newId c =
     (if selectedSkillId c = [] then
        (c\<lparr>feedback := Some \<lparr>fb_type = error, message = ''Please select a skill''\<rparr>\<rparr>, None)
      else
        (case parseInt (executionCount c) of
           None \<Rightarrow>
             (c\<lparr>feedback := Some \<lparr>fb_type = error, message = ''Count must be at least 1''\<rparr>\<rparr>, None)
         | Some count' \<Rightarrow>
             if count' < 1 then
               (c\<lparr>feedback := Some \<lparr>fb_type = error, message = ''Count must be at least 1''\<rparr>\<rparr>,
                None)
             else if logExistsForDate st (selectedSkillId c) (selectedDate c) then
               (c\<lparr>feedback := Some \<lparr>fb_type = error, message =
                   ''Already logged this skill for this date. Edit or delete the existing log first.''\<rparr>\<rparr>,
                None)
             else
               let newLog = \<lparr>log_id = newId, skillId = selectedSkillId c,
                             date = selectedDate c, count = count'\<rparr>;
                   skill = find (\<lambda>s. skill_id s = selectedSkillId c) skills';
                   dateDisplay = (case parseDate tz (selectedDate c) of
                                    None \<Rightarrow> ''Invalid Date''
                                  | Some d \<Rightarrow> formatDateForDisplay d);
                   shown = (case skill of
                              None \<Rightarrow> ''skill''
                            | Some s \<Rightarrow> if skill_name s = [] then ''skill'' else skill_name s)
               in (c\<lparr>feedback := Some \<lparr>fb_type = success, message =
                        ''Logged '' @ String count' @ times_sign @ '' '' @ shown
                          @ '' for '' @ dateDisplay\<rparr>,
                     executionCount := ''1''\<rparr>,
                   Some newLog)))"

definition handleQuickLog ::
  "Skill \<Rightarrow> Date \<Rightarrow> Storage \<Rightarrow> string \<Rightarrow> LoggerState \<Rightarrow> LoggerState \<times> Log option" where
  "handleQuickLog skill now st newId c =
     (let today = getTodayString now
      in if logExistsForDate st (skill_id skill) today then
           (let logs = getLogs st;
                existingLog = find (\<lambda>l. skillId l = skill_id skill \<and> date l = today) logs
            in case existingLog of
                 Some e \<Rightarrow>
                   let updatedLog = e\<lparr>count := count e + 1\<rparr>
                   in (c\<lparr>feedback := Some \<lparr>fb_type = success, message =
                            ''Updated '' @ skill_name skill @ '' to '' @ String (count updatedLog)
                              @ times_sign @ '' today''\<rparr>\<rparr>,
                       Some updatedLog)
               | None \<Rightarrow> (c, None))
         else
           (let newLog = \<lparr>log_id = newId, skillId = skill_id skill, date = today, count = 1\<rparr>
            in (c\<lparr>feedback := Some \<lparr>fb_type = success, message =
                     ''Logged 1'' @ times_sign @ '' '' @ skill_name skill @ '' for today''\<rparr>\<rparr>,
                Some newLog)))"

section \<open>Index.tsx: the handlers wired to the hooks\<close>

text \<open>
  The page passes \<open>addOrUpdateLog\<close> of \<open>useLogs\<close> to the logger as \<open>onLogExecution\<close>.
  A click runs the handler, the call it makes updates the hook's state, and the hook's
  effect then writes that state to the storage.
\<close>

definition onLogExecution :: "Log option \<Rightarrow> App \<Rightarrow> App" where
  "onLogExecution call app =
     (case call of
        None \<Rightarrow> app
      | Some l \<Rightarrow> useLogs_effect (app\<lparr>logsState := addOrUpdateLog l (logsState app)\<rparr>))"

definition clickQuickLog :: "Skill \<Rightarrow> Date \<Rightarrow> string \<Rightarrow> App \<Rightarrow> App" where
  "clickQuickLog skill now newId app =
     (case handleQuickLog skill now (localStorage app) newId (logger app) of
        (c, call) \<Rightarrow> onLogExecution call (app\<lparr>logger := c\<rparr>))"

definition clickLogExecution :: "zone \<Rightarrow> string \<Rightarrow> App \<Rightarrow> App" where
  "clickLogExecution tz newId app =
     (case handleLogExecution tz (skillsState app) (localStorage app) newId (logger app) of
        (c, call) \<Rightarrow> onLogExecution call (app\<lparr>logger := c\<rparr>))"

definition handleDeleteConfirm :: "string \<Rightarrow> App \<Rightarrow> App" where
  "handleDeleteConfirm sid app = useSkills_effect (deleteSkill sid app)"

section \<open>Vocabulary of the claims\<close>

text \<open>
  The key under which the specification counts logs is the pair of skill and date; a
  collection has at most one log per pair when these keys are distinct.
\<close>

definition logKey :: "Log \<Rightarrow> string \<times> string" where
  "logKey l = (skillId l, date l)"

definition onePerPair :: "Log list \<Rightarrow> bool" where
  "onePerPair logs = distinct (map logKey logs)"

definition uniqueIds :: "Log list \<Rightarrow> bool" where
  "uniqueIds logs = distinct (map log_id logs)"

definition logsForPair :: "string \<Rightarrow> string \<Rightarrow> Log list \<Rightarrow> Log list" where
  "logsForPair sid d logs = filter (\<lambda>l. skillId l = sid \<and> date l = d) logs"

definition otherLogs :: "string \<Rightarrow> string \<Rightarrow> Log list \<Rightarrow> Log list" where
  "otherLogs sid d logs = filter (\<lambda>l. \<not> (skillId l = sid \<and> date l = d)) logs"

text \<open>
  Calendar days are compared by year, then month, then day of the month. \<open>addDays d k\<close>
  is the calendar day \<open>k\<close> days after \<open>d\<close>, at the time of day of \<open>d\<close>: the fields
  that the idiom \<open>d.setDate(d.getDate() + k)\<close> of the sources asks for. \<open>nextDay\<close> is
  the step of the loop in \<open>getWeekDates\<close>.
\<close>

definition sameCalendarDay :: "Date \<Rightarrow> Date \<Rightarrow> bool" where
  "sameCalendarDay a b =
     (getFullYear a = getFullYear b \<and> getMonth a = getMonth b \<and> getDate a = getDate b)"

definition calendarDayLess :: "Date \<Rightarrow> Date \<Rightarrow> bool" where
  "calendarDayLess a b =
     (getFullYear a < getFullYear b
      \<or> getFullYear a = getFullYear b
        \<and> (getMonth a < getMonth b \<or> getMonth a = getMonth b \<and> getDate a < getDate b))"

definition calendarDayLe :: "Date \<Rightarrow> Date \<Rightarrow> bool" where
  "calendarDayLe a b =
     (getFullYear a < getFullYear b
      \<or> getFullYear a = getFullYear b
        \<and> (getMonth a < getMonth b \<or> getMonth a = getMonth b \<and> getDate a \<le> getDate b))"



text \<open>
  A zone keeps the calendar day when every local time it skips is moved to a later time
  of the same day, as by a daylight-saving shift of an hour at two o'clock or at
  midnight; a zone that skips a calendar day does not. \<open>utcZone\<close> skips no local time.
  \<open>havana2024\<close> has the start of daylight saving in Havana on Sunday 10 March 2024,
  when the hour from midnight was skipped; \<open>apia2011\<close> has the change of Apia to the
  other side of the date line, which skipped Friday 30 December 2011.
\<close>

definition keepsCalendarDay :: "zone \<Rightarrow> bool" where
  "keepsCalendarDay tz = (\<forall>d. validDate d \<longrightarrow> validDate (tz d) \<and> sameCalendarDay (tz d) d)"

definition utcZone :: zone where
  "utcZone d = d"

definition havana2024 :: zone where
  "havana2024 d =
     (if getFullYear d = 2024 \<and> getMonth d = 2 \<and> getDate d = 10 \<and> getHours d = 0
      then d\<lparr>getHours := 1\<rparr> else d)"


text \<open>
  The years of which every date lies at least a week within the range of JavaScript
  dates.
\<close>

definition weekInRange :: "Date \<Rightarrow> bool" where
  "weekInRange d = (- 271820 \<le> getFullYear d \<and> getFullYear d \<le> 275759)"

text \<open>
  A string has the shape \<open>YYYY-MM-DD\<close> when it is four digits, a dash, two digits, a dash
  and two digits.
\<close>

definition isDateString :: "string \<Rightarrow> bool" where
  "isDateString s =
     (length s = 10 \<and> s ! 4 = CHR ''-'' \<and> s ! 7 = CHR ''-''
      \<and> list_all isDigit (take 4 s) \<and> list_all isDigit (take 2 (drop 5 s))
      \<and> list_all isDigit (drop 8 s))"

subsection \<open>Example data\<close>

definition guitar :: Skill where
  "guitar = \<lparr>skill_id = ''s1'', skill_name = ''Guitar'', weeklyGoal = 5, createdAt = 1\<rparr>"

definition idleLogger :: LoggerState where
  "idleLogger = \<lparr>selectedDate = ''2024-01-31'', selectedSkillId = ''s1'',
                  executionCount = ''2'', feedback = None\<rparr>"

definition appWith :: "Log list \<Rightarrow> App" where
  "appWith logs =
     \<lparr>skillsState = [guitar], logsState = logs,
      localStorage = \<lparr>skillsItem = Some [guitar], logsItem = Some logs\<rparr>,
      logger = idleLogger\<rparr>"

definition sharedIdLogs :: "Log list" where
  "sharedIdLogs =
     [\<lparr>log_id = ''a'', skillId = ''s2'', date = ''2024-01-31'', count = 1\<rparr>,
      \<lparr>log_id = ''a'', skillId = ''s1'', date = ''2024-01-31'', count = 1\<rparr>]"

definition distinctIdLogs :: "Log list" where
  "distinctIdLogs =
     [\<lparr>log_id = ''a'', skillId = ''s2'', date = ''2024-01-31'', count = 1\<rparr>,
      \<lparr>log_id = ''b'', skillId = ''s1'', date = ''2024-01-31'', count = 1\<rparr>]"

definition exampleStorage :: Storage where
  "exampleStorage =
     \<lparr>skillsItem = Some
        [\<lparr>skill_id = ''s1'', skill_name = ''Guitar'', weeklyGoal = 4, createdAt = 1\<rparr>,
         \<lparr>skill_id = ''s2'', skill_name = ''Reading'', weeklyGoal = 6, createdAt = 2\<rparr>],
      logsItem = Some
        [\<lparr>log_id = ''a'', skillId = ''s1'', date = ''2024-01-29'', count = 1\<rparr>,
         \<lparr>log_id = ''b'', skillId = ''s2'', date = ''2024-01-30'', count = 3\<rparr>,
         \<lparr>log_id = ''c'', skillId = ''s1'', date = ''2024-02-04'', count = 3\<rparr>,
         \<lparr>log_id = ''d'', skillId = ''s1'', date = ''2024-01-28'', count = 5\<rparr>,
         \<lparr>log_id = ''e'', skillId = ''s2'', date = ''2024-02-05'', count = 2\<rparr>]\<rparr>"

definition emptyStorage :: Storage where
  "emptyStorage = \<lparr>skillsItem = None, logsItem = None\<rparr>"

section \<open>The date utilities\<close>

subsection \<open>Days rolling over the end of a month\<close>

lemma daysInMonth_bounds: "28 \<le> daysInMonth y m" "daysInMonth y m \<le> 31"
  by (simp_all add: daysInMonth_def)









subsection \<open>Calendar days under a zone\<close>



lemma sameCalendarDay_trans:
  "sameCalendarDay a b \<Longrightarrow> sameCalendarDay b c \<Longrightarrow> sameCalendarDay a c"
  by (simp add: sameCalendarDay_def)



lemma calendarDayLess_cong:
  "sameCalendarDay a a' \<Longrightarrow> sameCalendarDay b b' \<Longrightarrow> calendarDayLess a b = calendarDayLess a' b'"
  by (simp add: sameCalendarDay_def calendarDayLess_def)

lemma keepsCalendarDay_valid: "keepsCalendarDay tz \<Longrightarrow> validDate d \<Longrightarrow> validDate (tz d)"
  by (simp add: keepsCalendarDay_def)

lemma keepsCalendarDay_same: "keepsCalendarDay tz \<Longrightarrow> validDate d \<Longrightarrow> sameCalendarDay (tz d) d"
  by (simp add: keepsCalendarDay_def)


lemma keepsCalendarDay_havana2024: "keepsCalendarDay havana2024"
  by (simp add: keepsCalendarDay_def havana2024_def sameCalendarDay_def validDate_def)

lemma validDate_withHours:
  "validDate d \<Longrightarrow> 0 \<le> h \<Longrightarrow> h \<le> 23 \<Longrightarrow> 0 \<le> mi \<Longrightarrow> mi \<le> 59 \<Longrightarrow> 0 \<le> s \<Longrightarrow> s \<le> 59
   \<Longrightarrow> 0 \<le> ms \<Longrightarrow> ms \<le> 999 \<Longrightarrow> validDate (withHours d h mi s ms)"
  by (simp add: validDate_def withHours_def)

lemma sameCalendarDay_withHours: "sameCalendarDay (withHours d h mi s ms) d"
  by (simp add: sameCalendarDay_def withHours_def)


lemma setHours_keeps:
  assumes "keepsCalendarDay tz" and "validDate d"
    and "0 \<le> h" "h \<le> 23" "0 \<le> mi" "mi \<le> 59" "0 \<le> s" "s \<le> 59" "0 \<le> ms" "ms \<le> 999"
  shows "validDate (setHours tz d h mi s ms)"
    and "sameCalendarDay (setHours tz d h mi s ms) d"
proof -
  have v: "validDate (withHours d h mi s ms)" using assms(2-) by (rule validDate_withHours)
  show "validDate (setHours tz d h mi s ms)"
    unfolding setHours_def using assms(1) v by (rule keepsCalendarDay_valid)
  have "sameCalendarDay (tz (withHours d h mi s ms)) (withHours d h mi s ms)"
    using assms(1) v by (rule keepsCalendarDay_same)
  then show "sameCalendarDay (setHours tz d h mi s ms) d"
    unfolding setHours_def by (rule sameCalendarDay_trans) (rule sameCalendarDay_withHours)
qed

subsection \<open>The week of a date\<close>














lemma leap_day_example:
  "validDate (newDate utcZone 2024 1 29)"
  "weekInRange (newDate utcZone 2024 1 29)"
  by code_simp+



subsection \<open>Decimal digits\<close>

lemma char_less_int: "c1 < c2 \<longleftrightarrow> (of_char c1 :: int) < of_char c2"
proof -
  have "(of_char c1 :: int) = int (of_char c1)" "(of_char c2 :: int) = int (of_char c2)"
    by (simp_all add: of_nat_of_char)
  then show ?thesis by (simp add: less_char_def)
qed

lemma of_char_digitChar: "0 \<le> n \<Longrightarrow> n < 10 \<Longrightarrow> (of_char (digitChar n) :: int) = 48 + n"
  by (simp add: digitChar_def)

lemma isDigit_digitChar: "0 \<le> n \<Longrightarrow> n < 10 \<Longrightarrow> isDigit (digitChar n)"
  by (simp add: isDigit_def of_char_digitChar)

lemma digitVal_digitChar: "0 \<le> n \<Longrightarrow> n < 10 \<Longrightarrow> digitVal (digitChar n) = n"
  by (simp add: digitVal_def of_char_digitChar)

lemma digitChar_not_dash:
  assumes "0 \<le> n" and "n < 10"
  shows "digitChar n \<noteq> CHR ''-''" and "CHR ''-'' \<noteq> digitChar n"
proof -
  show "digitChar n \<noteq> CHR ''-''"
  proof
    assume "digitChar n = CHR ''-''"
    then have "(of_char (digitChar n) :: int) = of_char CHR ''-''" by simp
    with assms show False by (simp add: of_char_digitChar)
  qed
  then show "CHR ''-'' \<noteq> digitChar n" by simp
qed

lemma digitChar_less_iff:
  "0 \<le> a \<Longrightarrow> a < 10 \<Longrightarrow> 0 \<le> b \<Longrightarrow> b < 10 \<Longrightarrow> digitChar a < digitChar b \<longleftrightarrow> a < b"
  by (simp add: char_less_int of_char_digitChar)

lemma digitChar_eq_iff:
  "0 \<le> a \<Longrightarrow> a < 10 \<Longrightarrow> 0 \<le> b \<Longrightarrow> b < 10 \<Longrightarrow> digitChar a = digitChar b \<longleftrightarrow> a = b"
  using digitVal_digitChar by metis

lemma digitChar_0: "digitChar 0 = CHR ''0''"
  by (simp add: digitChar_def char_of_eq_iff)

lemma digitsValue_append:
  "digitsValue acc (xs @ ys) = digitsValue (digitsValue acc xs) ys"
  by (induction xs arbitrary: acc) auto

lemma decimalDigits_props:
  "0 \<le> n \<Longrightarrow> decimalDigits n \<noteq> [] \<and> list_all isDigit (decimalDigits n)
     \<and> CHR ''-'' \<notin> set (decimalDigits n) \<and> digitsValue 0 (decimalDigits n) = n"
proof (induction n rule: decimalDigits.induct)
  case (1 n)
  show ?case
  proof (cases "n < 10")
    case True
    with 1 show ?thesis
      by (simp add: decimalDigits.simps [of n] isDigit_digitChar digitVal_digitChar digitChar_not_dash)
  next
    case False
    with 1 have IH: "decimalDigits (n div 10) \<noteq> [] \<and> list_all isDigit (decimalDigits (n div 10))
     \<and> CHR ''-'' \<notin> set (decimalDigits (n div 10)) \<and> digitsValue 0 (decimalDigits (n div 10)) = n div 10"
      by simp
    have m: "0 \<le> n mod 10" "n mod 10 < 10" by simp_all
    from False IH m show ?thesis
      by (simp add: decimalDigits.simps [of n] isDigit_digitChar digitVal_digitChar
          digitChar_not_dash digitsValue_append)
  qed
qed

lemma Number_digits:
  assumes "s \<noteq> []" and "list_all isDigit s"
  shows "Number s = Some (digitsValue 0 s)"
  using assms by (cases s) (simp_all add: Number_def)

lemma Number_String: "0 \<le> n \<Longrightarrow> Number (String n) = Some n"
  using decimalDigits_props [of n] by (simp add: String_def Number_digits)

lemma isDigit_0: "isDigit CHR ''0''"
  by (simp add: isDigit_def)

lemma digitsValue_zeros: "digitsValue 0 (replicate k CHR ''0'' @ s) = digitsValue 0 s"
  by (induction k) (simp_all add: digitVal_def)

lemma Number_padStart: "0 \<le> n \<Longrightarrow> Number (padStart k CHR ''0'' (String n)) = Some n"
proof -
  assume n: "0 \<le> n"
  let ?s = "padStart k CHR ''0'' (String n)"
  from decimalDigits_props [OF n] n have "?s \<noteq> []" "list_all isDigit ?s" "digitsValue 0 ?s = n"
    by (simp_all add: padStart_def String_def isDigit_0 digitsValue_zeros list_all_iff)
  with Number_digits [of ?s] show ?thesis by simp
qed

lemma split_no_sep: "c \<notin> set s \<Longrightarrow> split c s = [s]"
  by (induction s) auto

lemma split_append: "c \<notin> set a \<Longrightarrow> split c (a @ c # rest) = a # split c rest"
  by (induction a) auto

lemma dash_notin_String: "0 \<le> n \<Longrightarrow> CHR ''-'' \<notin> set (String n)"
  using decimalDigits_props [of n] by (simp add: String_def)

lemma dash_notin_padStart: "0 \<le> n \<Longrightarrow> CHR ''-'' \<notin> set (padStart k CHR ''0'' (String n))"
  using dash_notin_String [of n] by (auto simp: padStart_def)

lemma split_formatDateToString:
  assumes "0 \<le> getFullYear d" and "0 \<le> getMonth d" and "0 \<le> getDate d"
  shows "split CHR ''-'' (formatDateToString d) =
     [String (getFullYear d), padStart 2 CHR ''0'' (String (getMonth d + 1)),
      padStart 2 CHR ''0'' (String (getDate d))]"
proof -
  from assms have "0 \<le> getMonth d + 1" by simp
  with assms show ?thesis
    by (simp add: formatDateToString_def Let_def split_append split_no_sep
        dash_notin_String dash_notin_padStart)
qed

lemma parseDate_of_formatDateToString:
  assumes "validDate d" and "100 \<le> getFullYear d"
  shows "parseDate tz (formatDateToString d) = Some (setHours tz d 0 0 0 0)"
proof -
  from assms have v: "0 \<le> getMonth d" "getMonth d \<le> 11" "1 \<le> getDate d"
     "getDate d \<le> daysInMonth (getFullYear d) (getMonth d)" "0 \<le> getFullYear d"
    by (simp_all add: validDate_def)
  then have nn: "0 \<le> getMonth d + 1" "0 \<le> getDate d" by simp_all
  have sp: "map Number (split CHR ''-'' (formatDateToString d)) =
      [Some (getFullYear d), Some (getMonth d + 1), Some (getDate d)]"
    using v nn by (simp add: split_formatDateToString Number_String Number_padStart)
  have rd: "rollDay (getFullYear d) (getMonth d) (getDate d) = (getFullYear d, getMonth d, getDate d)"
    using v by (simp add: rollDay.simps [of "getFullYear d"])
  from v assms(2) have "makeDate (getFullYear d) (getMonth d) (getDate d) = withHours d 0 0 0 0"
    by (simp add: makeDate_def Let_def rd withHours_def)
  then show ?thesis by (simp add: parseDate_def sp newDate_def setHours_def)
qed

subsection \<open>The order of date strings\<close>

lemma append_le_same_length:
  fixes a b :: string
  shows "length a = length b \<Longrightarrow> (a @ x \<le> b @ y \<longleftrightarrow> a < b \<or> a = b \<and> x \<le> y)"
  by (induction a b rule: list_induct2) auto

lemma append_less_same_length:
  fixes a b :: string
  shows "length a = length b \<Longrightarrow> (a @ x < b @ y \<longleftrightarrow> a < b \<or> a = b \<and> x < y)"
  by (induction a b rule: list_induct2) auto

lemma decimalDigits_small: "n < 10 \<Longrightarrow> decimalDigits n = [digitChar n]"
  by (simp add: decimalDigits.simps [of n])

lemma decimalDigits_step:
  "10 \<le> n \<Longrightarrow> decimalDigits n = decimalDigits (n div 10) @ [digitChar (n mod 10)]"
  by (simp add: decimalDigits.simps [of n])

lemma length_decimalDigits_ge2: "10 \<le> n \<Longrightarrow> 2 \<le> length (decimalDigits n)"
proof -
  assume n: "10 \<le> n"
  then have "0 \<le> n div 10" by simp
  from decimalDigits_props [OF this] have "decimalDigits (n div 10) \<noteq> []" by simp
  then have "1 \<le> length (decimalDigits (n div 10))" by (cases "decimalDigits (n div 10)") simp_all
  with n show ?thesis by (simp add: decimalDigits_step)
qed

lemma decimalDigits_eq_iff:
  "0 \<le> a \<Longrightarrow> 0 \<le> b \<Longrightarrow> decimalDigits a = decimalDigits b \<longleftrightarrow> a = b"
  using decimalDigits_props by metis

lemma div_mod_10_less:
  fixes a b :: int
  shows "a < b \<longleftrightarrow> a div 10 < b div 10 \<or> a div 10 = b div 10 \<and> a mod 10 < b mod 10"
proof -
  have *: "(10 * qa + ra < 10 * qb + rb) = (qa < qb \<or> qa = qb \<and> ra < rb)"
    if "0 \<le> ra" "ra < 10" "0 \<le> rb" "rb < 10" for qa ra qb rb :: int
    using that by arith
  have "0 \<le> a mod 10" "a mod 10 < 10" "0 \<le> b mod 10" "b mod 10 < 10" by simp_all
  from * [OF this, of "a div 10" "b div 10"] show ?thesis by simp
qed

lemma div_mod_10_eq:
  fixes a b :: int
  shows "a = b \<longleftrightarrow> a div 10 = b div 10 \<and> a mod 10 = b mod 10"
  by (metis mult_div_mod_eq)


lemma decimalDigits_less_iff:
  "0 \<le> a \<Longrightarrow> 0 \<le> b \<Longrightarrow> length (decimalDigits a) = length (decimalDigits b)
   \<Longrightarrow> decimalDigits a < decimalDigits b \<longleftrightarrow> a < b"
proof (induction a arbitrary: b rule: decimalDigits.induct)
  case (1 a)
  show ?case
  proof (cases "a < 10")
    case True
    then have la: "length (decimalDigits a) = 1" by (simp add: decimalDigits_small)
    have "b < 10"
    proof (rule ccontr)
      assume "\<not> b < 10"
      then have "2 \<le> length (decimalDigits b)" by (intro length_decimalDigits_ge2) simp
      with la "1.prems"(3) show False by simp
    qed
    with True "1.prems" show ?thesis
      by (simp add: decimalDigits_small digitChar_less_iff)
  next
    case False
    then have a10: "10 \<le> a" by simp
    then have la: "2 \<le> length (decimalDigits a)" by (rule length_decimalDigits_ge2)
    have b10: "10 \<le> b"
    proof (rule ccontr)
      assume "\<not> 10 \<le> b"
      then have "length (decimalDigits b) = 1" by (simp add: decimalDigits_small)
      with la "1.prems"(3) show False by simp
    qed
    from a10 b10 "1.prems"(3)
    have len: "length (decimalDigits (a div 10)) = length (decimalDigits (b div 10))"
      by (simp add: decimalDigits_step)
    from a10 b10 have nn: "0 \<le> a div 10" "0 \<le> b div 10" by simp_all
    from "1.IH" [OF False nn len]
    have IH: "decimalDigits (a div 10) < decimalDigits (b div 10) \<longleftrightarrow> a div 10 < b div 10" .
    have m: "0 \<le> a mod 10" "a mod 10 < 10" "0 \<le> b mod 10" "b mod 10 < 10" by simp_all
    have "decimalDigits a < decimalDigits b \<longleftrightarrow>
        decimalDigits (a div 10) < decimalDigits (b div 10)
        \<or> decimalDigits (a div 10) = decimalDigits (b div 10)
          \<and> [digitChar (a mod 10)] < [digitChar (b mod 10)]"
      using a10 b10 by (simp add: decimalDigits_step append_less_same_length [OF len])
    also have "\<dots> \<longleftrightarrow> a div 10 < b div 10 \<or> a div 10 = b div 10 \<and> a mod 10 < b mod 10"
      using m by (simp add: IH decimalDigits_eq_iff [OF nn] digitChar_less_iff)
    also have "\<dots> \<longleftrightarrow> a < b" by (rule div_mod_10_less [symmetric])
    finally show ?thesis .
  qed
qed

lemma length_String_4: "1000 \<le> y \<Longrightarrow> y \<le> 9999 \<Longrightarrow> length (String y) = 4"
proof -
  assume y: "1000 \<le> y" "y \<le> 9999"
  then have a: "10 \<le> y" "10 \<le> y div 10" "10 \<le> y div 10 div 10" "y div 10 div 10 div 10 < 10"
    by simp_all
  from y have "String y = decimalDigits y" by (simp add: String_def)
  also have "length \<dots> = 4"
    by (simp add: decimalDigits_step [OF a(1)] decimalDigits_step [OF a(2)]
        decimalDigits_step [OF a(3)] decimalDigits_small [OF a(4)])
  finally show ?thesis .
qed

lemma padStart_2:
  assumes "0 \<le> n" and "n < 100"
  shows "padStart 2 CHR ''0'' (String n) = [digitChar (n div 10), digitChar (n mod 10)]"
proof (cases "n < 10")
  case True
  with assms show ?thesis
    by (simp add: String_def padStart_def decimalDigits_small digitChar_0)
next
  case False
  then have "10 \<le> n" by simp
  moreover from assms False have "n div 10 < 10" by simp
  ultimately show ?thesis
    using assms by (simp add: String_def padStart_def decimalDigits_step decimalDigits_small)
qed

lemma padStart_2_less_iff:
  assumes "0 \<le> a" "a < 100" "0 \<le> b" "b < 100"
  shows "padStart 2 CHR ''0'' (String a) < padStart 2 CHR ''0'' (String b) \<longleftrightarrow> a < b"
    and "padStart 2 CHR ''0'' (String a) \<le> padStart 2 CHR ''0'' (String b) \<longleftrightarrow> a \<le> b"
    and "padStart 2 CHR ''0'' (String a) = padStart 2 CHR ''0'' (String b) \<longleftrightarrow> a = b"
proof -
  from assms have d: "0 \<le> a div 10" "a div 10 < 10" "0 \<le> b div 10" "b div 10 < 10"
    "0 \<le> a mod 10" "a mod 10 < 10" "0 \<le> b mod 10" "b mod 10 < 10" by simp_all
  have lt: "a < b \<longleftrightarrow> a div 10 < b div 10 \<or> a div 10 = b div 10 \<and> a mod 10 < b mod 10"
    by (rule div_mod_10_less)
  have eq: "a = b \<longleftrightarrow> a div 10 = b div 10 \<and> a mod 10 = b mod 10"
    by (rule div_mod_10_eq)
  show 1: "padStart 2 CHR ''0'' (String a) < padStart 2 CHR ''0'' (String b) \<longleftrightarrow> a < b"
    using d by (simp add: padStart_2 assms digitChar_less_iff digitChar_eq_iff lt)
  show 3: "padStart 2 CHR ''0'' (String a) = padStart 2 CHR ''0'' (String b) \<longleftrightarrow> a = b"
    using d by (simp add: padStart_2 assms digitChar_eq_iff eq)
  from 1 3 show "padStart 2 CHR ''0'' (String a) \<le> padStart 2 CHR ''0'' (String b) \<longleftrightarrow> a \<le> b"
    by (auto simp: le_less)
qed

lemma length_padStart_2: "0 \<le> n \<Longrightarrow> n < 100 \<Longrightarrow> length (padStart 2 CHR ''0'' (String n)) = 2"
  by (simp add: padStart_2)

lemma formatDateToString_le_iff:
  assumes v1: "validDate d1" and v2: "validDate d2"
    and y1: "0 \<le> getFullYear d1" and y2: "0 \<le> getFullYear d2"
    and len: "length (String (getFullYear d1)) = length (String (getFullYear d2))"
  shows "formatDateToString d1 \<le> formatDateToString d2 \<longleftrightarrow> calendarDayLe d1 d2"
proof -
  let ?Y1 = "String (getFullYear d1)" and ?Y2 = "String (getFullYear d2)"
  let ?M1 = "padStart 2 CHR ''0'' (String (getMonth d1 + 1))"
  let ?M2 = "padStart 2 CHR ''0'' (String (getMonth d2 + 1))"
  let ?D1 = "padStart 2 CHR ''0'' (String (getDate d1))"
  let ?D2 = "padStart 2 CHR ''0'' (String (getDate d2))"
  from v1 daysInMonth_bounds [of "getFullYear d1" "getMonth d1"]
  have b1: "0 \<le> getMonth d1 + 1" "getMonth d1 + 1 < 100" "0 \<le> getDate d1" "getDate d1 < 100"
    by (simp_all add: validDate_def)
  from v2 daysInMonth_bounds [of "getFullYear d2" "getMonth d2"]
  have b2: "0 \<le> getMonth d2 + 1" "getMonth d2 + 1 < 100" "0 \<le> getDate d2" "getDate d2 < 100"
    by (simp_all add: validDate_def)
  have lm: "length ?M1 = length ?M2" using b1 b2 by (simp add: length_padStart_2)
  from len y1 y2 have ylt: "?Y1 < ?Y2 \<longleftrightarrow> getFullYear d1 < getFullYear d2"
    by (simp add: String_def decimalDigits_less_iff)
  from y1 y2 have yeq: "?Y1 = ?Y2 \<longleftrightarrow> getFullYear d1 = getFullYear d2"
    by (simp add: String_def decimalDigits_eq_iff)
  have mlt: "?M1 < ?M2 \<longleftrightarrow> getMonth d1 < getMonth d2"
    using padStart_2_less_iff(1) [OF b1(1,2) b2(1,2)] by auto
  have meq: "?M1 = ?M2 \<longleftrightarrow> getMonth d1 = getMonth d2"
    using padStart_2_less_iff(3) [OF b1(1,2) b2(1,2)] by simp
  have dle: "?D1 \<le> ?D2 \<longleftrightarrow> getDate d1 \<le> getDate d2"
    by (rule padStart_2_less_iff(2) [OF b1(3,4) b2(3,4)])
  have "formatDateToString d1 \<le> formatDateToString d2 \<longleftrightarrow>
      ?Y1 @ (CHR ''-'' # ?M1 @ CHR ''-'' # ?D1) \<le> ?Y2 @ (CHR ''-'' # ?M2 @ CHR ''-'' # ?D2)"
    by (simp add: formatDateToString_def Let_def)
  also have "\<dots> \<longleftrightarrow> ?Y1 < ?Y2 \<or> ?Y1 = ?Y2 \<and> (?M1 @ CHR ''-'' # ?D1 \<le> ?M2 @ CHR ''-'' # ?D2)"
    by (simp add: append_le_same_length [OF len])
  also have "\<dots> \<longleftrightarrow> ?Y1 < ?Y2 \<or> ?Y1 = ?Y2 \<and> (?M1 < ?M2 \<or> ?M1 = ?M2 \<and> ?D1 \<le> ?D2)"
    by (simp add: append_le_same_length [OF lm])
  also have "\<dots> \<longleftrightarrow> calendarDayLe d1 d2"
    by (simp only: ylt yeq mlt meq dle calendarDayLe_def)
  finally show ?thesis .
qed

subsection \<open>Strings of the shape YYYY-MM-DD\<close>

lemma length_decimalDigits_cases:
  assumes "0 \<le> y"
  shows "length (decimalDigits y) = 4 \<longleftrightarrow> 1000 \<le> y \<and> y \<le> 9999"
proof -
  have small: "length (decimalDigits n) \<le> 3" if "n < 1000" for n
  proof -
    have "n < 10 \<or> (10 \<le> n \<and> n < 100) \<or> (100 \<le> n \<and> n < 1000)"
      using that by arith
    then consider "n < 10" | "10 \<le> n \<and> n < 100" | "100 \<le> n \<and> n < 1000" by blast
    then show ?thesis
    proof cases
      case 1
      then show ?thesis by (simp add: decimalDigits_small)
    next
      case 2
      then have a: "10 \<le> n" "n < 100" by simp_all
      then have "n div 10 < 10" by simp
      with a show ?thesis by (simp add: decimalDigits_step decimalDigits_small)
    next
      case 3
      then have a: "100 \<le> n" "n < 1000" by simp_all
      then have "10 \<le> n" "10 \<le> n div 10" "n div 10 div 10 < 10" by simp_all
      then show ?thesis by (simp add: decimalDigits_step decimalDigits_small)
    qed
  qed
  have big: "5 \<le> length (decimalDigits n)" if "10000 \<le> n" for n
  proof -
    from that have a: "10 \<le> n" "10 \<le> n div 10" "10 \<le> n div 10 div 10"
      "10 \<le> n div 10 div 10 div 10" by simp_all
    from length_decimalDigits_ge2 [OF a(4)] show ?thesis
      by (simp add: decimalDigits_step [OF a(1)] decimalDigits_step [OF a(2)]
          decimalDigits_step [OF a(3)])
  qed
  show ?thesis
  proof
    assume l: "length (decimalDigits y) = 4"
    show "1000 \<le> y \<and> y \<le> 9999"
    proof (rule ccontr)
      assume "\<not> (1000 \<le> y \<and> y \<le> 9999)"
      then have "y < 1000 \<or> 10000 \<le> y" by arith
      then consider "y < 1000" | "10000 \<le> y" by blast
      then show False
      proof cases
        case 1
        from small [OF 1] l show False by simp
      next
        case 2
        from big [OF 2] l show False by simp
      qed
    qed
  next
    assume "1000 \<le> y \<and> y \<le> 9999"
    then show "length (decimalDigits y) = 4"
      using length_String_4 [of y] by (simp add: String_def)
  qed
qed

lemma isDateString_formatDateToString:
  assumes "validDate d"
  shows "isDateString (formatDateToString d) \<longleftrightarrow> 1000 \<le> getFullYear d \<and> getFullYear d \<le> 9999"
proof -
  let ?Y = "String (getFullYear d)"
  let ?M = "padStart 2 CHR ''0'' (String (getMonth d + 1))"
  let ?D = "padStart 2 CHR ''0'' (String (getDate d))"
  from assms daysInMonth_bounds [of "getFullYear d" "getMonth d"]
  have b: "0 \<le> getMonth d + 1" "getMonth d + 1 < 100" "0 \<le> getDate d" "getDate d < 100"
    by (simp_all add: validDate_def)
  have f: "formatDateToString d = ?Y @ CHR ''-'' # ?M @ CHR ''-'' # ?D"
    by (simp add: formatDateToString_def Let_def)
  have lM: "length ?M = 2" and lD: "length ?D = 2"
    using b by (simp_all add: length_padStart_2)
  have dM: "list_all isDigit ?M" and dD: "list_all isDigit ?D"
    using b by (simp_all add: padStart_2 isDigit_digitChar)
  show ?thesis
  proof
    assume i: "isDateString (formatDateToString d)"
    then have "length ?Y = 4" using lM lD by (simp add: isDateString_def f)
    moreover from this i have "list_all isDigit ?Y" by (simp add: isDateString_def f)
    moreover have "\<not> isDigit CHR ''-''" by (simp add: isDigit_def)
    ultimately have nn: "0 \<le> getFullYear d" and "length (decimalDigits (getFullYear d)) = 4"
      by (auto simp: String_def split: if_splits)
    then show "1000 \<le> getFullYear d \<and> getFullYear d \<le> 9999"
      by (simp add: length_decimalDigits_cases)
  next
    assume y: "1000 \<le> getFullYear d \<and> getFullYear d \<le> 9999"
    then have lY: "length ?Y = 4" by (simp add: length_String_4)
    from y have "list_all isDigit ?Y"
      using decimalDigits_props [of "getFullYear d"] by (simp add: String_def)
    with lY lM lD dM dD show "isDateString (formatDateToString d)"
      by (simp add: isDateString_def f nth_append)
  qed
qed

text \<open>
  Claim C3, as stated: for every valid calendar date, \<open>parseDate\<close> of its formatted
  string is the same calendar day. The year is written without padding, and the
  constructor reads a year from 0 to 99 as 1900 to 1999: the fifth of January of the year
  50, the date of \<open>0050-01-05\<close>, is written \<open>50-01-05\<close> and read back as the fifth of
  January 1950.
\<close>

theorem parseDate_two_digit_year_counterexample:
  "validDate \<lparr>getFullYear = 50, getMonth = 0, getDate = 5, getHours = 0,
      getMinutes = 0, getSeconds = 0, getMilliseconds = 0\<rparr>
   \<and> formatDateToString \<lparr>getFullYear = 50, getMonth = 0, getDate = 5, getHours = 0,
      getMinutes = 0, getSeconds = 0, getMilliseconds = 0\<rparr> = ''50-01-05''
   \<and> parseDate utcZone (formatDateToString \<lparr>getFullYear = 50, getMonth = 0, getDate = 5,
      getHours = 0, getMinutes = 0, getSeconds = 0, getMilliseconds = 0\<rparr>) =
      Some \<lparr>getFullYear = 1950, getMonth = 0, getDate = 5, getHours = 0,
        getMinutes = 0, getSeconds = 0, getMilliseconds = 0\<rparr>
   \<and> \<not> sameCalendarDay
        \<lparr>getFullYear = 1950, getMonth = 0, getDate = 5, getHours = 0,
          getMinutes = 0, getSeconds = 0, getMilliseconds = 0\<rparr>
        \<lparr>getFullYear = 50, getMonth = 0, getDate = 5, getHours = 0,
          getMinutes = 0, getSeconds = 0, getMilliseconds = 0\<rparr>"
  by code_simp

text \<open>
  Claim C3, amended: for every valid calendar date \<open>d\<close> of the years 100 to 275759, in
  every zone, \<open>parseDate\<close> of the formatted string of \<open>d\<close> is the date that the zone gives
  for midnight of the day of \<open>d\<close>; in a zone that keeps the calendar day it is a valid
  date on the same calendar day as \<open>d\<close>: same year, month and day of the month.
\<close>

theorem parseDate_formatDateToString_roundtrip:
  assumes "validDate d" and "100 \<le> getFullYear d" and "getFullYear d \<le> 275759"
  shows "\<exists>d'. parseDate tz (formatDateToString d) = Some d'
            \<and> d' = setHours tz d 0 0 0 0
            \<and> (keepsCalendarDay tz \<longrightarrow> validDate d' \<and> sameCalendarDay d' d)"
proof -
  have "validDate (setHours tz d 0 0 0 0) \<and> sameCalendarDay (setHours tz d 0 0 0 0) d"
    if "keepsCalendarDay tz"
    using setHours_keeps [OF that assms(1), of 0 0 0 0] by simp
  with parseDate_of_formatDateToString [OF assms(1,2)] show ?thesis by simp
qed

text \<open>
  The leap day of 2024, and the tenth of March 2024 in Havana, where the day began at one
  o'clock.
\<close>

lemma roundtrip_example:
  "isDateString (formatDateToString (newDate utcZone 2024 1 29))"
  "parseDate utcZone (formatDateToString (newDate utcZone 2024 1 29)) = Some (newDate utcZone 2024 1 29)"
  by code_simp+

lemma havana_roundtrip_example:
  "validDate (newDate havana2024 2024 2 10)"
  "100 \<le> getFullYear (newDate havana2024 2024 2 10)"
  "getFullYear (newDate havana2024 2024 2 10) \<le> 275759"
  "getHours (newDate havana2024 2024 2 10) = 1"
  "parseDate havana2024 (formatDateToString (newDate havana2024 2024 2 10)) =
     Some (newDate havana2024 2024 2 10)"
  by code_simp+

theorem parseDate_formatDateToString_roundtrip_witness:
  "parseDate havana2024 (formatDateToString (newDate havana2024 2024 2 10)) =
     Some (newDate havana2024 2024 2 10)
   \<and> newDate havana2024 2024 2 10 = setHours havana2024 (newDate havana2024 2024 2 10) 0 0 0 0
   \<and> validDate (newDate havana2024 2024 2 10)
   \<and> sameCalendarDay (newDate havana2024 2024 2 10) (newDate havana2024 2024 2 10)"
  using parseDate_formatDateToString_roundtrip [OF havana_roundtrip_example(1,2,3), of havana2024]
    havana_roundtrip_example(5) keepsCalendarDay_havana2024
  by auto

lemma year_10000_example:
  "validDate (newDate utcZone 9999 11 31)" "validDate (newDate utcZone 10000 0 1)"
  "formatDateToString (newDate utcZone 9999 11 31) = ''9999-12-31''"
  "formatDateToString (newDate utcZone 10000 0 1) = ''10000-01-01''"
  "calendarDayLe (newDate utcZone 9999 11 31) (newDate utcZone 10000 0 1)"
  by code_simp+

text \<open>
  Claim C4, as stated: for every pair of calendar dates, the formatted strings compare
  lexicographically as the calendar days do. The year is written with as many digits as
  it has, so 31 December 9999 is on or before 1 January 10000 while \<open>9999-12-31\<close> is
  not below \<open>10000-01-01\<close>.
\<close>

theorem formatDateToString_order_counterexample:
  "validDate (newDate utcZone 9999 11 31) \<and> validDate (newDate utcZone 10000 0 1)
   \<and> calendarDayLe (newDate utcZone 9999 11 31) (newDate utcZone 10000 0 1)
   \<and> \<not> formatDateToString (newDate utcZone 9999 11 31) \<le> formatDateToString (newDate utcZone 10000 0 1)"
  by (simp add: year_10000_example)

text \<open>
  Claim C4, amended: for every pair of valid calendar dates that \<open>formatDateToString\<close>
  writes as \<open>YYYY-MM-DD\<close> strings (the dates of the years 1000 to 9999), the string of
  the first is lexicographically less than or equal to the string of the second exactly
  when the first calendar day is on or before the second.
\<close>

theorem formatDateToString_order:
  assumes "validDate d1" and "validDate d2"
    and "isDateString (formatDateToString d1)" and "isDateString (formatDateToString d2)"
  shows "formatDateToString d1 \<le> formatDateToString d2 \<longleftrightarrow> calendarDayLe d1 d2"
proof -
  from assms have "1000 \<le> getFullYear d1 \<and> getFullYear d1 \<le> 9999"
    and "1000 \<le> getFullYear d2 \<and> getFullYear d2 \<le> 9999"
    by (simp_all add: isDateString_formatDateToString)
  with assms(1,2) show ?thesis
    by (intro formatDateToString_le_iff) (simp_all add: length_String_4)
qed

lemma order_example:
  "validDate (newDate utcZone 2024 0 31)"
  "isDateString (formatDateToString (newDate utcZone 2024 0 31))"
  "calendarDayLe (newDate utcZone 2024 0 31) (newDate utcZone 2024 1 29)"
  "\<not> calendarDayLe (newDate utcZone 2024 1 29) (newDate utcZone 2024 0 31)"
  by code_simp+

theorem formatDateToString_order_witness:
  "formatDateToString (newDate utcZone 2024 0 31) \<le> formatDateToString (newDate utcZone 2024 1 29)
   \<and> \<not> formatDateToString (newDate utcZone 2024 1 29) \<le> formatDateToString (newDate utcZone 2024 0 31)"
  using formatDateToString_order [OF order_example(1) leap_day_example(1) order_example(2) roundtrip_example(1)]
    formatDateToString_order [OF leap_day_example(1) order_example(1) roundtrip_example(1) order_example(2)]
    order_example(3,4)
  by simp

text \<open>
  Hence the filter of \<open>getLogsInDateRange\<close>, which compares strings, selects exactly the
  logs whose days lie in the range, when the bounds and the dates of the logs are such
  strings.
\<close>

lemma getLogsInDateRange_chronological:
  assumes "validDate s" and "validDate e"
    and "isDateString (formatDateToString s)" and "isDateString (formatDateToString e)"
    and "\<And>l. l \<in> set (getLogs st) \<Longrightarrow>
           validDate (dateOf l) \<and> date l = formatDateToString (dateOf l)
           \<and> isDateString (formatDateToString (dateOf l))"
  shows "getLogsInDateRange st (formatDateToString s) (formatDateToString e) =
     filter (\<lambda>l. calendarDayLe s (dateOf l) \<and> calendarDayLe (dateOf l) e) (getLogs st)"
proof -
  have y: "1000 \<le> getFullYear x \<and> getFullYear x \<le> 9999"
    if "validDate x" "isDateString (formatDateToString x)" for x
    using that by (simp add: isDateString_formatDateToString)
  have le: "formatDateToString a \<le> formatDateToString b \<longleftrightarrow> calendarDayLe a b"
    if "validDate a" "isDateString (formatDateToString a)"
       "validDate b" "isDateString (formatDateToString b)" for a b
    using that y [OF that(1,2)] y [OF that(3,4)]
    by (intro formatDateToString_le_iff) (simp_all add: length_String_4)
  show ?thesis
    unfolding getLogsInDateRange_def Let_def
  proof (rule filter_cong [OF refl])
    fix l assume "l \<in> set (getLogs st)"
    from assms(5) [OF this] have v: "validDate (dateOf l)" and d: "date l = formatDateToString (dateOf l)"
      and i: "isDateString (formatDateToString (dateOf l))" by simp_all
    show "(formatDateToString s \<le> date l \<and> date l \<le> formatDateToString e) =
          (calendarDayLe s (dateOf l) \<and> calendarDayLe (dateOf l) e)"
      unfolding d using le [OF assms(1,3) v i] le [OF v i assms(2,4)] by simp
  qed
qed

section \<open>The weekly report engine\<close>

lemma foldl_add_sum_list:
  "foldl (\<lambda>sum x. sum + f x) a xs = (a::int) + sum_list (map f xs)"
  by (induction xs arbitrary: a) auto

lemma completedCount_calculateSkillProgress:
  "completedCount (calculateSkillProgress tz skill weekLogs weekDates) =
     sum_list (map count (filter (\<lambda>l. skillId l = skill_id skill) weekLogs))"
  by (simp add: calculateSkillProgress_def Let_def foldl_add_sum_list)

lemma skills_generateWeeklyReport:
  "skills (generateWeeklyReport tz today st) =
     map (\<lambda>skill. calculateSkillProgress tz skill
            (getLogsInDateRange st (formatDateToString (getWeekStart tz today))
               (formatDateToString (getWeekEnd tz today)))
            (getWeekDates tz (getWeekStart tz today)))
       (getSkills st)"
  by (simp add: generateWeeklyReport_def getCurrentWeekRange_def Let_def)

text \<open>
  Claim C1. For every skill and every list of week logs, \<open>calculateSkillProgress\<close>
  returns a progress whose \<open>completedCount\<close> is the sum of \<open>count\<close> over exactly the logs
  whose \<open>skillId\<close> is the skill's id; whose \<open>progressPercentage\<close> is
  \<open>min (completedCount / weeklyGoal * 100) 100\<close> when the goal is positive and 0 when
  the goal is 0 or negative (the function is total, so no division fault arises); and whose \<open>isComplete\<close>
  holds exactly when the uncapped count reaches the goal.
\<close>

theorem calculateSkillProgress_spec:
  "let p = calculateSkillProgress tz skill weekLogs weekDates;
       c = sum_list (map count (filter (\<lambda>l. skillId l = skill_id skill) weekLogs))
   in completedCount p = c
    \<and> progressPercentage p =
           (if weeklyGoal skill > 0
            then min (rat_of_int c / rat_of_int (weeklyGoal skill) * 100) 100
            else 0)
    \<and> (isComplete p \<longleftrightarrow> c \<ge> weeklyGoal skill)"
  by (simp add: calculateSkillProgress_def Let_def foldl_add_sum_list)

text \<open>
  The example of the specification: a goal of 5 and logs of the skill totalling 8 (a log
  of another skill lies between them) give a count of 8, a percentage capped at 100 and a
  complete skill.
\<close>

theorem calculateSkillProgress_spec_witness:
  "completedCount (calculateSkillProgress utcZone
      \<lparr>skill_id = ''s1'', skill_name = ''Guitar'', weeklyGoal = 5, createdAt = 0\<rparr>
      [\<lparr>log_id = ''a'', skillId = ''s1'', date = ''2024-01-29'', count = 3\<rparr>,
       \<lparr>log_id = ''b'', skillId = ''s2'', date = ''2024-01-29'', count = 4\<rparr>,
       \<lparr>log_id = ''c'', skillId = ''s1'', date = ''2024-01-31'', count = 5\<rparr>] []) = 8
   \<and> progressPercentage (calculateSkillProgress utcZone
      \<lparr>skill_id = ''s1'', skill_name = ''Guitar'', weeklyGoal = 5, createdAt = 0\<rparr>
      [\<lparr>log_id = ''a'', skillId = ''s1'', date = ''2024-01-29'', count = 3\<rparr>,
       \<lparr>log_id = ''b'', skillId = ''s2'', date = ''2024-01-29'', count = 4\<rparr>,
       \<lparr>log_id = ''c'', skillId = ''s1'', date = ''2024-01-31'', count = 5\<rparr>] []) = 100
   \<and> isComplete (calculateSkillProgress utcZone
      \<lparr>skill_id = ''s1'', skill_name = ''Guitar'', weeklyGoal = 5, createdAt = 0\<rparr>
      [\<lparr>log_id = ''a'', skillId = ''s1'', date = ''2024-01-29'', count = 3\<rparr>,
       \<lparr>log_id = ''b'', skillId = ''s2'', date = ''2024-01-29'', count = 4\<rparr>,
       \<lparr>log_id = ''c'', skillId = ''s1'', date = ''2024-01-31'', count = 5\<rparr>] [])"
  using calculateSkillProgress_spec
    [of utcZone "\<lparr>skill_id = ''s1'', skill_name = ''Guitar'', weeklyGoal = 5, createdAt = 0\<rparr>"
        "[\<lparr>log_id = ''a'', skillId = ''s1'', date = ''2024-01-29'', count = 3\<rparr>,
          \<lparr>log_id = ''b'', skillId = ''s2'', date = ''2024-01-29'', count = 4\<rparr>,
          \<lparr>log_id = ''c'', skillId = ''s1'', date = ''2024-01-31'', count = 5\<rparr>]" "[]"]
  by (simp add: Let_def)

text \<open>
  Claim C10, as stated: a skill with a goal of 0 is reported complete for any week logs,
  because the completed count is never negative. The count of a log is a number that the
  engine takes as it is stored, so a stored negative count makes the sum negative and the
  skill incomplete.
\<close>

theorem calculateSkillProgress_goal0_counterexample:
  "\<not> isComplete (calculateSkillProgress utcZone
       \<lparr>skill_id = ''s1'', skill_name = ''Guitar'', weeklyGoal = 0, createdAt = 0\<rparr>
       [\<lparr>log_id = ''a'', skillId = ''s1'', date = ''2024-01-29'', count = - 1\<rparr>] [])"
  by (simp add: calculateSkillProgress_def Let_def)

lemma sum_list_count_nonneg:
  "(\<And>l. l \<in> set ls \<Longrightarrow> 0 \<le> count l) \<Longrightarrow> 0 \<le> sum_list (map count ls)"
  by (induction ls) auto

text \<open>
  Claim C10, amended: for every skill with a goal of 0 and any week logs in which the
  logs of that skill have non-negative counts (no logs included), the skill is reported
  complete, and its percentage is 0.
\<close>

theorem calculateSkillProgress_goal0:
  assumes "weeklyGoal skill = 0"
    and "\<forall>l \<in> set weekLogs. skillId l = skill_id skill \<longrightarrow> 0 \<le> count l"
  shows "isComplete (calculateSkillProgress tz skill weekLogs weekDates)
       \<and> progressPercentage (calculateSkillProgress tz skill weekLogs weekDates) = 0"
proof -
  have "0 \<le> sum_list (map count (filter (\<lambda>l. skillId l = skill_id skill) weekLogs))"
    using assms(2) by (intro sum_list_count_nonneg) auto
  with assms(1) show ?thesis
    by (simp add: calculateSkillProgress_def Let_def foldl_add_sum_list)
qed

theorem calculateSkillProgress_goal0_witness:
  "isComplete (calculateSkillProgress utcZone
       \<lparr>skill_id = ''s1'', skill_name = ''Guitar'', weeklyGoal = 0, createdAt = 0\<rparr>
       [\<lparr>log_id = ''a'', skillId = ''s1'', date = ''2024-01-29'', count = 2\<rparr>] [])
   \<and> isComplete (calculateSkillProgress utcZone
       \<lparr>skill_id = ''s1'', skill_name = ''Guitar'', weeklyGoal = 0, createdAt = 0\<rparr> [] [])"
proof -
  have a: "weeklyGoal \<lparr>skill_id = ''s1'', skill_name = ''Guitar'', weeklyGoal = 0, createdAt = 0\<rparr> = 0"
    by simp
  have b: "\<forall>l \<in> set [\<lparr>log_id = ''a'', skillId = ''s1'', date = ''2024-01-29'', count = 2\<rparr>].
             skillId l = skill_id \<lparr>skill_id = ''s1'', skill_name = ''Guitar'', weeklyGoal = 0, createdAt = 0\<rparr>
             \<longrightarrow> 0 \<le> count l"
    by simp
  have c: "\<forall>l \<in> set ([] :: Log list).
             skillId l = skill_id \<lparr>skill_id = ''s1'', skill_name = ''Guitar'', weeklyGoal = 0, createdAt = 0\<rparr>
             \<longrightarrow> 0 \<le> count l"
    by simp
  from calculateSkillProgress_goal0 [OF a b, of utcZone "[]"] calculateSkillProgress_goal0 [OF a c, of utcZone "[]"]
  show ?thesis by blast
qed

text \<open>
  Claim C2. The report's \<open>totalGoal\<close> is the sum of the stored skills' goals, its
  \<open>totalCompleted\<close> the sum of the completed counts of its skill progresses (one per
  stored skill, in storage order), and its \<open>overallProgress\<close> is
  \<open>min (totalCompleted / totalGoal * 100) 100\<close> when the total goal is positive and 0
  otherwise. Without skills the report has no skill progress and an overall progress of 0;
  with two skills of goals 4 and 6 and completed counts 4 and 3 the totals are 10 and 7
  and the overall progress is 70.
\<close>

theorem generateWeeklyReport_spec:
  "let r = generateWeeklyReport tz today st
   in totalGoal r = sum_list (map weeklyGoal (getSkills st))
    \<and> totalCompleted r = sum_list (map completedCount (skills r))
    \<and> overallProgress r =
          (if totalGoal r > 0
           then min (rat_of_int (totalCompleted r) / rat_of_int (totalGoal r) * 100) 100
           else 0)
    \<and> map sp_skillId (skills r) = map skill_id (getSkills st)
    \<and> (getSkills st = [] \<longrightarrow> skills r = [] \<and> overallProgress r = 0)
    \<and> (map weeklyGoal (getSkills st) = [4, 6] \<and> map completedCount (skills r) = [4, 3]
         \<longrightarrow> totalGoal r = 10 \<and> totalCompleted r = 7 \<and> overallProgress r = 70)"
proof -
  define r where "r = generateWeeklyReport tz today st"
  have tg: "totalGoal r = sum_list (map weeklyGoal (getSkills st))"
    by (simp add: r_def generateWeeklyReport_def getCurrentWeekRange_def Let_def foldl_add_sum_list)
  have tc: "totalCompleted r = sum_list (map completedCount (skills r))"
    by (simp add: r_def generateWeeklyReport_def getCurrentWeekRange_def Let_def foldl_add_sum_list)
  have op: "overallProgress r =
          (if totalGoal r > 0
           then min (rat_of_int (totalCompleted r) / rat_of_int (totalGoal r) * 100) 100
           else 0)"
    by (simp add: r_def generateWeeklyReport_def getCurrentWeekRange_def Let_def)
  have ids: "map sp_skillId (skills r) = map skill_id (getSkills st)"
    by (simp add: r_def skills_generateWeeklyReport calculateSkillProgress_def Let_def comp_def)
  have empty: "getSkills st = [] \<longrightarrow> skills r = [] \<and> overallProgress r = 0"
    using tg op by (simp add: r_def skills_generateWeeklyReport)
  have ex: "map weeklyGoal (getSkills st) = [4, 6] \<and> map completedCount (skills r) = [4, 3]
         \<longrightarrow> totalGoal r = 10 \<and> totalCompleted r = 7 \<and> overallProgress r = 70"
    using tg tc op by simp
  from tg tc op ids empty ex show ?thesis
    unfolding r_def Let_def by blast
qed

lemma example_range:
  "formatDateToString (getWeekStart utcZone (newDate utcZone 2024 0 31)) = ''2024-01-29''"
  "formatDateToString (getWeekEnd utcZone (newDate utcZone 2024 0 31)) = ''2024-02-04''"
  by code_simp+

lemma example_weekLogs:
  "getLogsInDateRange exampleStorage ''2024-01-29'' ''2024-02-04'' =
     [\<lparr>log_id = ''a'', skillId = ''s1'', date = ''2024-01-29'', count = 1\<rparr>,
      \<lparr>log_id = ''b'', skillId = ''s2'', date = ''2024-01-30'', count = 3\<rparr>,
      \<lparr>log_id = ''c'', skillId = ''s1'', date = ''2024-02-04'', count = 3\<rparr>]"
  by code_simp

lemma example_skills:
  "getSkills exampleStorage =
        [\<lparr>skill_id = ''s1'', skill_name = ''Guitar'', weeklyGoal = 4, createdAt = 1\<rparr>,
         \<lparr>skill_id = ''s2'', skill_name = ''Reading'', weeklyGoal = 6, createdAt = 2\<rparr>]"
  "getSkills emptyStorage = []"
  by code_simp+

text \<open>
  On Wednesday 31 January 2024 the week runs from 29 January to 4 February; the example
  storage holds two skills with goals 4 and 6 whose logs of that week total 4 and 3, and
  logs outside the week.
\<close>

theorem generateWeeklyReport_spec_witness:
  "totalGoal (generateWeeklyReport utcZone (newDate utcZone 2024 0 31) exampleStorage) = 10
   \<and> totalCompleted (generateWeeklyReport utcZone (newDate utcZone 2024 0 31) exampleStorage) = 7
   \<and> overallProgress (generateWeeklyReport utcZone (newDate utcZone 2024 0 31) exampleStorage) = 70
   \<and> skills (generateWeeklyReport utcZone (newDate utcZone 2024 0 31) emptyStorage) = []
   \<and> overallProgress (generateWeeklyReport utcZone (newDate utcZone 2024 0 31) emptyStorage) = 0"
proof -
  have g: "map weeklyGoal (getSkills exampleStorage) = [4, 6]"
    by (simp add: example_skills)
  have c: "map completedCount (skills (generateWeeklyReport utcZone (newDate utcZone 2024 0 31) exampleStorage)) = [4, 3]"
    by (simp add: skills_generateWeeklyReport example_range example_weekLogs example_skills
          completedCount_calculateSkillProgress)
  from generateWeeklyReport_spec [of utcZone "newDate utcZone 2024 0 31" exampleStorage]
       generateWeeklyReport_spec [of utcZone "newDate utcZone 2024 0 31" emptyStorage] g c example_skills(2)
  show ?thesis unfolding Let_def by blast
qed

text \<open>
  Claim C9. \<open>getProgressStatus\<close> answers \<open>complete\<close> exactly when the progress is
  complete. Otherwise, with the days elapsed being today's weekday counted from Monday = 1
  to Sunday = 7 (the weekday index 0 of Sunday becomes 7), it answers \<open>on-track\<close> exactly
  when the completed count is at least \<open>(daysElapsed / 7) * weeklyGoal\<close>, and \<open>behind\<close>
  otherwise.
\<close>

theorem getProgressStatus_spec:
  "let daysElapsed = (if getDay today = 0 then 7 else getDay today);
       expected = (rat_of_int daysElapsed / 7) * rat_of_int (sp_weeklyGoal p)
   in (getProgressStatus today p = complete \<longleftrightarrow> isComplete p)
    \<and> (\<not> isComplete p \<longrightarrow>
         (getProgressStatus today p = on_track \<longleftrightarrow> rat_of_int (completedCount p) \<ge> expected)
       \<and> (getProgressStatus today p = behind \<longleftrightarrow> \<not> rat_of_int (completedCount p) \<ge> expected))
    \<and> 1 \<le> daysElapsed \<and> daysElapsed \<le> 7"
  by (auto simp: getProgressStatus_def Let_def getDay_def)

lemma wednesday_example: "getDay (newDate utcZone 2024 0 31) = 3"
  by code_simp

text \<open>
  The example of the specification: 31 January 2024 is a Wednesday; with a goal of 7 a
  count of 3 is on track and a count of 2 is behind.
\<close>

theorem getProgressStatus_spec_witness:
  "getProgressStatus (newDate utcZone 2024 0 31)
     \<lparr>sp_skillId = ''s1'', skillName = ''Guitar'', sp_weeklyGoal = 7, completedCount = 3,
      progressPercentage = 300 / 7, isComplete = False, dailyBreakdown = []\<rparr> = on_track
   \<and> getProgressStatus (newDate utcZone 2024 0 31)
     \<lparr>sp_skillId = ''s1'', skillName = ''Guitar'', sp_weeklyGoal = 7, completedCount = 2,
      progressPercentage = 200 / 7, isComplete = False, dailyBreakdown = []\<rparr> = behind"
  using getProgressStatus_spec [of "newDate utcZone 2024 0 31"
     "\<lparr>sp_skillId = ''s1'', skillName = ''Guitar'', sp_weeklyGoal = 7, completedCount = 3,
      progressPercentage = 300 / 7, isComplete = False, dailyBreakdown = []\<rparr>"]
    getProgressStatus_spec [of "newDate utcZone 2024 0 31"
     "\<lparr>sp_skillId = ''s1'', skillName = ''Guitar'', sp_weeklyGoal = 7, completedCount = 2,
      progressPercentage = 200 / 7, isComplete = False, dailyBreakdown = []\<rparr>"]
  by (simp add: Let_def wednesday_example)

section \<open>Logging executions and deleting skills\<close>

lemma findIndex_ge: "- 1 \<le> findIndex P xs"
  by (induction xs) (auto simp: Let_def)

lemma findIndex_none: "findIndex P xs = - 1 \<longleftrightarrow> \<not> list_ex P xs"
proof (induction xs)
  case Nil
  then show ?case by simp
next
  case (Cons a xs)
  from findIndex_ge [of P xs] have "findIndex P xs + 1 \<noteq> - 1" by arith
  with Cons show ?case by (auto simp: Let_def)
qed

lemma findIndex_distinct:
  "distinct (map f xs) \<Longrightarrow> x \<in> set xs \<Longrightarrow>
     0 \<le> findIndex (\<lambda>y. f y = f x) xs \<and> nat (findIndex (\<lambda>y. f y = f x) xs) < length xs
     \<and> xs ! nat (findIndex (\<lambda>y. f y = f x) xs) = x"
proof (induction xs)
  case Nil
  then show ?case by simp
next
  case (Cons a xs)
  show ?case
  proof (cases "f a = f x")
    case True
    with Cons.prems have "a = x" by (auto simp: image_iff)
    with True show ?thesis by simp
  next
    case False
    with Cons.prems have x: "x \<in> set xs" and d: "distinct (map f xs)" by auto
    from Cons.IH [OF d x] False show ?thesis
      by (auto simp: Let_def nat_add_distrib)
  qed
qed

lemma filter_key_distinct:
  "distinct (map f xs) \<Longrightarrow> x \<in> set xs \<Longrightarrow> filter (\<lambda>y. f y = f x) xs = [x]"
proof (induction xs)
  case Nil
  then show ?case by simp
next
  case (Cons a xs)
  show ?case
  proof (cases "a = x")
    case True
    with Cons.prems(1) have "filter (\<lambda>y. f y = f x) xs = []"
      by (auto simp: filter_empty_conv image_iff)
    with True show ?thesis by simp
  next
    case False
    with Cons.prems have x: "x \<in> set xs" by simp
    with Cons.prems(1) have "f a \<noteq> f x" by (auto simp: image_iff)
    with Cons x show ?thesis by simp
  qed
qed

lemma filter_update_same:
  "i < length xs \<Longrightarrow> P (xs ! i) \<Longrightarrow> P y \<Longrightarrow>
     filter (\<lambda>z. \<not> P z) (xs[i := y]) = filter (\<lambda>z. \<not> P z) xs"
  by (induction xs arbitrary: i) (auto split: nat.splits)

lemma filter_update_hit:
  "i < length xs \<Longrightarrow> filter P xs = [xs ! i] \<Longrightarrow> P y \<Longrightarrow> filter P (xs[i := y]) = [y]"
proof (induction xs arbitrary: i)
  case Nil
  then show ?case by simp
next
  case (Cons a xs)
  show ?case
  proof (cases i)
    case 0
    have "P a"
    proof (rule ccontr)
      assume "\<not> P a"
      with Cons.prems 0 have "filter P xs = [a]" by simp
      then have "a \<in> set (filter P xs)" by simp
      with \<open>\<not> P a\<close> show False by simp
    qed
    with Cons.prems 0 show ?thesis by simp
  next
    case (Suc j)
    show ?thesis
    proof (cases "P a")
      case True
      with Cons.prems Suc have "filter P xs = []" and "a = xs ! j" by auto
      moreover from Cons.prems Suc have "xs ! j \<in> set xs" by simp
      ultimately have False using True by (auto simp: filter_empty_conv)
      then show ?thesis ..
    next
      case False
      with Cons Suc show ?thesis by simp
    qed
  qed
qed

lemma find_list_ex: "list_ex P xs \<Longrightarrow> \<exists>x. find P xs = Some x \<and> x \<in> set xs \<and> P x"
  by (induction xs) auto
lemma today_example: "getTodayString (newDate utcZone 2024 0 31) = ''2024-01-31''"
  by code_simp

text \<open>
  Claim C6, as stated: in every log collection with at most one log per pair of skill
  and date, a quick log for a skill that has a log for today leaves exactly one log for
  that pair, its count increased by 1. \<open>addOrUpdateLog\<close> replaces the first log that has
  the identifier of the log found, so in a collection where an earlier log of another
  skill shares that identifier, the earlier log is overwritten and the pair has two logs.
\<close>

theorem quickLog_shared_id_counterexample:
  "onePerPair sharedIdLogs
   \<and> getLogs (localStorage (appWith sharedIdLogs)) = logsState (appWith sharedIdLogs)
   \<and> logExistsForDate (localStorage (appWith sharedIdLogs)) (skill_id guitar)
        (getTodayString (newDate utcZone 2024 0 31))
   \<and> logsState (clickQuickLog guitar (newDate utcZone 2024 0 31) ''n'' (appWith sharedIdLogs)) =
       [\<lparr>log_id = ''a'', skillId = ''s1'', date = ''2024-01-31'', count = 2\<rparr>,
        \<lparr>log_id = ''a'', skillId = ''s1'', date = ''2024-01-31'', count = 1\<rparr>]"
  by (simp add: today_example onePerPair_def logKey_def sharedIdLogs_def appWith_def guitar_def
      logExistsForDate_def getLogs_def getFromStorage_def Let_def clickQuickLog_def
      handleQuickLog_def onLogExecution_def addOrUpdateLog_def useLogs_effect_def)

text \<open>
  After a skill is deleted the hook of the logs still holds the logs of that skill, which
  \<open>deleteSkill\<close> removed from the storage only; the next write of the hook stores them
  again.
\<close>

lemma after_delete_example:
  "logsState (handleDeleteConfirm ''s2'' (appWith distinctIdLogs)) = distinctIdLogs"
  "getLogs (localStorage (handleDeleteConfirm ''s2'' (appWith distinctIdLogs))) =
     [\<lparr>log_id = ''b'', skillId = ''s1'', date = ''2024-01-31'', count = 1\<rparr>]"
  by (simp_all add: handleDeleteConfirm_def deleteSkill_def useSkills_effect_def Let_def
      appWith_def distinctIdLogs_def saveLogs_def saveSkills_def getLogs_def getFromStorage_def)

lemma stale_logs_example:
  "getLogs (localStorage (clickQuickLog guitar (newDate utcZone 2024 0 31) ''n''
      (handleDeleteConfirm ''s2'' (appWith distinctIdLogs)))) =
     [\<lparr>log_id = ''a'', skillId = ''s2'', date = ''2024-01-31'', count = 1\<rparr>,
      \<lparr>log_id = ''b'', skillId = ''s1'', date = ''2024-01-31'', count = 2\<rparr>]"
  by (simp add: today_example handleDeleteConfirm_def deleteSkill_def useSkills_effect_def Let_def
      appWith_def distinctIdLogs_def guitar_def saveLogs_def saveSkills_def getLogs_def
      getFromStorage_def logExistsForDate_def clickQuickLog_def
      handleQuickLog_def onLogExecution_def addOrUpdateLog_def useLogs_effect_def)

text \<open>
  Claim C6, amended: when the log identifiers are pairwise distinct as well, and the
  hook's logs contain every persisted log, the quick log for a skill that has a log for
  today replaces that log by one whose count is increased by 1; the pair still has
  exactly one log, every other log is unchanged, no log is added, the collection still
  has at most one log per pair, and it is the collection persisted.
\<close>

theorem quickLog_increments:
  assumes sub: "set (getLogs (localStorage app)) \<subseteq> set (logsState app)"
    and ids: "uniqueIds (logsState app)"
    and inv: "onePerPair (logsState app)"
    and ex: "logExistsForDate (localStorage app) (skill_id skill) (getTodayString now)"
  shows "let app' = clickQuickLog skill now newId app;
             sid = skill_id skill; today = getTodayString now
         in (\<exists>e. logsForPair sid today (logsState app) = [e]
                \<and> logsForPair sid today (logsState app') = [e\<lparr>count := count e + 1\<rparr>])
          \<and> otherLogs sid today (logsState app') = otherLogs sid today (logsState app)
          \<and> length (logsState app') = length (logsState app)
          \<and> onePerPair (logsState app')
          \<and> getLogs (localStorage app') = logsState app'"
proof -
  define L where "L = logsState app"
  define S where "S = getLogs (localStorage app)"
  define sid where "sid = skill_id skill"
  define today where "today = getTodayString now"
  let ?P = "\<lambda>l. skillId l = sid \<and> date l = today"
  from ex have "list_ex ?P S"
    by (simp add: logExistsForDate_def Let_def S_def sid_def today_def)
  from find_list_ex [OF this] obtain e where
    fe: "find ?P S = Some e" and eS: "e \<in> set S" and Pe: "?P e" by blast
  from eS sub have eL: "e \<in> set L" by (auto simp: S_def L_def)
  define e' where "e' = e\<lparr>count := count e + 1\<rparr>"
  define i where "i = nat (findIndex (\<lambda>l. log_id l = log_id e) L)"
  from ids have dL: "distinct (map log_id L)" by (simp add: uniqueIds_def L_def)
  from findIndex_distinct [OF dL eL] have
    i0: "0 \<le> findIndex (\<lambda>l. log_id l = log_id e) L" and iL: "i < length L" and Li: "L ! i = e"
    by (simp_all add: i_def)
  have hq: "handleQuickLog skill now (localStorage app) newId (logger app) =
      ((logger app)\<lparr>feedback := Some \<lparr>fb_type = success, message =
          ''Updated '' @ skill_name skill @ '' to '' @ String (count e') @ times_sign @ '' today''\<rparr>\<rparr>,
       Some e')"
    using ex fe
    by (simp add: handleQuickLog_def Let_def S_def sid_def today_def e'_def)
  have upd: "addOrUpdateLog e' L = L[i := e']"
    using i0 by (simp add: addOrUpdateLog_def Let_def e'_def i_def)
  have L': "logsState (clickQuickLog skill now newId app) = L[i := e']"
    using upd by (simp add: clickQuickLog_def hq onLogExecution_def useLogs_effect_def L_def)
  have st': "getLogs (localStorage (clickQuickLog skill now newId app)) = L[i := e']"
    using upd by (simp add: clickQuickLog_def hq onLogExecution_def useLogs_effect_def L_def
        saveLogs_def getLogs_def getFromStorage_def)
  have keyP: "\<And>l. ?P l \<longleftrightarrow> logKey l = logKey e" using Pe by (auto simp: logKey_def)
  from inv have dK: "distinct (map logKey L)" by (simp add: onePerPair_def L_def)
  have f1: "filter ?P L = [e]"
    using filter_key_distinct [OF dK eL] by (simp add: keyP)
  have Pe': "?P e'" using Pe by (simp add: e'_def)
  have f2: "filter ?P (L[i := e']) = [e']"
    using filter_update_hit [OF iL, of ?P e'] f1 Li Pe' by simp
  have f3: "filter (\<lambda>l. \<not> ?P l) (L[i := e']) = filter (\<lambda>l. \<not> ?P l) L"
    using filter_update_same [OF iL, of ?P e'] Li Pe Pe' by simp
  have "map logKey (L[i := e']) = (map logKey L)[i := logKey e']" by (simp add: map_update)
  also have "logKey e' = map logKey L ! i" using iL Li by (simp add: logKey_def e'_def)
  finally have "map logKey (L[i := e']) = map logKey L" by simp
  with dK have inv': "onePerPair (L[i := e'])" by (simp add: onePerPair_def)
  show ?thesis
    unfolding Let_def L' st' logsForPair_def otherLogs_def
    using f1 f2 f3 inv'
    by (simp add: L_def [symmetric] sid_def [symmetric] today_def [symmetric] e'_def)
qed

text \<open>
  The quick log of a skill after the deletion of another one, where the hook's logs are
  more than the persisted ones.
\<close>

theorem quickLog_increments_witness:
  "logsState (clickQuickLog guitar (newDate utcZone 2024 0 31) ''n''
      (handleDeleteConfirm ''s2'' (appWith distinctIdLogs))) =
     [\<lparr>log_id = ''a'', skillId = ''s2'', date = ''2024-01-31'', count = 1\<rparr>,
      \<lparr>log_id = ''b'', skillId = ''s1'', date = ''2024-01-31'', count = 2\<rparr>]
   \<and> onePerPair (logsState (clickQuickLog guitar (newDate utcZone 2024 0 31) ''n''
      (handleDeleteConfirm ''s2'' (appWith distinctIdLogs))))"
proof -
  let ?app = "handleDeleteConfirm ''s2'' (appWith distinctIdLogs)"
  have h1: "set (getLogs (localStorage ?app)) \<subseteq> set (logsState ?app)"
    unfolding after_delete_example by (simp add: distinctIdLogs_def)
  have h2: "uniqueIds (logsState ?app)"
    unfolding after_delete_example by (simp add: uniqueIds_def distinctIdLogs_def)
  have h3: "onePerPair (logsState ?app)"
    unfolding after_delete_example by (simp add: onePerPair_def logKey_def distinctIdLogs_def)
  have h4: "logExistsForDate (localStorage ?app) (skill_id guitar)
              (getTodayString (newDate utcZone 2024 0 31))"
    unfolding logExistsForDate_def after_delete_example
    by (simp add: today_example guitar_def)
  from quickLog_increments [OF h1 h2 h3 h4, of "''n''"] stale_logs_example show ?thesis
    unfolding Let_def by metis
qed

text \<open>
  Claim C7. When the persisted collection already holds a log for the selected skill and
  date, the detailed entry is rejected: the handler sets an error message as feedback,
  does not call \<open>onLogExecution\<close>, and neither the hook's logs nor the storage change.
\<close>

theorem logExecution_rejects_duplicate:
  assumes "logExistsForDate (localStorage app) (selectedSkillId (logger app))
             (selectedDate (logger app))"
  shows "let app' = clickLogExecution tz newId app
         in snd (handleLogExecution tz (skillsState app) (localStorage app) newId (logger app)) = None
          \<and> (\<exists>m. feedback (logger app') = Some \<lparr>fb_type = error, message = m\<rparr>)
          \<and> logsState app' = logsState app
          \<and> localStorage app' = localStorage app"
  using assms
  by (auto simp: clickLogExecution_def handleLogExecution_def onLogExecution_def Let_def
      split: option.splits)

theorem logExecution_rejects_duplicate_witness:
  "feedback (logger (clickLogExecution utcZone ''n'' (appWith distinctIdLogs))) =
     Some \<lparr>fb_type = error, message =
       ''Already logged this skill for this date. Edit or delete the existing log first.''\<rparr>
   \<and> logsState (clickLogExecution utcZone ''n'' (appWith distinctIdLogs)) = distinctIdLogs
   \<and> getLogs (localStorage (clickLogExecution utcZone ''n'' (appWith distinctIdLogs))) = distinctIdLogs"
proof -
  have h: "logExistsForDate (localStorage (appWith distinctIdLogs))
             (selectedSkillId (logger (appWith distinctIdLogs)))
             (selectedDate (logger (appWith distinctIdLogs)))"
    by (simp add: appWith_def distinctIdLogs_def idleLogger_def logExistsForDate_def
        getLogs_def getFromStorage_def)
  have p: "parseInt ''2'' = Some 2" by code_simp
  have f: "feedback (logger (clickLogExecution utcZone ''n'' (appWith distinctIdLogs))) =
     Some \<lparr>fb_type = error, message =
       ''Already logged this skill for this date. Edit or delete the existing log first.''\<rparr>"
    using h by (simp add: clickLogExecution_def handleLogExecution_def onLogExecution_def p
        appWith_def idleLogger_def)
  from logExecution_rejects_duplicate [OF h, of utcZone "''n''"] f show ?thesis
    unfolding Let_def by (simp add: appWith_def getLogs_def getFromStorage_def)
qed

text \<open>
  Claim C8. Deleting a skill removes the skill with that identifier from the skills and
  every log of that skill from the persisted logs; the other skills and the other logs
  remain, unchanged and in their order. The logs are written by \<open>deleteSkill\<close> itself, the
  skills reach the storage with the effect of the hook.
\<close>

theorem deleteSkill_cascade:
  "let app' = handleDeleteConfirm sid app
   in skillsState app' = filter (\<lambda>skill. skill_id skill \<noteq> sid) (skillsState app)
    \<and> getSkills (localStorage app') = skillsState app'
    \<and> getLogs (localStorage app') = filter (\<lambda>l. skillId l \<noteq> sid) (getLogs (localStorage app))
    \<and> getLogs (localStorage (deleteSkill sid app)) = getLogs (localStorage app')"
  by (simp add: handleDeleteConfirm_def deleteSkill_def useSkills_effect_def Let_def
      saveLogs_def saveSkills_def getLogs_def getSkills_def getFromStorage_def)

theorem deleteSkill_cascade_witness:
  "getLogs (localStorage (handleDeleteConfirm ''s2'' (appWith distinctIdLogs))) =
     [\<lparr>log_id = ''b'', skillId = ''s1'', date = ''2024-01-31'', count = 1\<rparr>]
   \<and> skillsState (handleDeleteConfirm ''s1'' (appWith distinctIdLogs)) = []
   \<and> skillsState (handleDeleteConfirm ''s2'' (appWith distinctIdLogs)) = [guitar]"
  using deleteSkill_cascade [of "''s2''" "appWith distinctIdLogs"]
    deleteSkill_cascade [of "''s1''" "appWith distinctIdLogs"]
  by (simp add: Let_def appWith_def distinctIdLogs_def guitar_def getLogs_def getFromStorage_def)

end
